theory Spec2Isabelle
  imports Complex_Main "HOL-Library.AList"
begin

section \<open>Data model\<close>

text \<open>
  A table is a pandas DataFrame: an ordered list of named columns. A cell is a number, a
  missing value (NaN) or a string (protocol names, timestamps and other context).
  The numbers of a table are idealised as reals: arithmetic on them is exact.
\<close>

datatype cell = Num real | NaN | Str string

type_synonym column = "cell list"

type_synonym dataframe = "(string \<times> column) list"

definition columns :: "dataframe \<Rightarrow> string list" where
  "columns df = map fst df"

text \<open>The configuration document: the four keys the detector reads.\<close>

record config =
  features :: "string list"
  contamination :: real
  n_estimators :: int
  random_state :: "int option"

text \<open>
  Python exceptions. \<open>ValueError\<close> is one class; its payload tells the messages apart:
  the one raised by \<open>_validate_data\<close> carries the set of missing names, the others are
  raised by the input and parameter validation of scikit-learn.
\<close>

datatype value_error =
    MissingRequiredFeatures "string set"
  | NotNumeric
  | ContainsNaN
  | NoSamples
  | NoFeatures
  | InvalidParameter

datatype error =
    FileNotFoundError
  | JSONDecodeError
  | KeyError "string list"
  | TypeError
  | OverflowError
  | ValueError value_error

text \<open>The process-wide log: one entry per \<open>logging\<close> call, oldest first.\<close>

datatype log_entry =
    Info_loaded string
  | Info_anomaly_stats nat nat nat
  | Warning_config_not_found string
  | Warning_missing_values "(string \<times> nat) list"
  | Error_loading error
  | Error_detection error

type_synonym log = "log_entry list"

fun is_warning :: "log_entry \<Rightarrow> bool" where
  "is_warning (Warning_config_not_found _) = True"
| "is_warning (Warning_missing_values _) = True"
| "is_warning _ = False"

section \<open>Configuration\<close>

text \<open>
  What \<open>open(config_file)\<close> followed by \<open>json.load\<close> finds at a path: no file, a file
  that is not JSON, or a parsed document.
\<close>

datatype source = Absent | Unparseable | Document config

definition default_config :: config where
  "default_config =
     \<lparr>features = [''feature1'', ''feature2'', ''feature3''],
      contamination = 5 / 100,
      n_estimators = 100,
      random_state = Some 42\<rparr>"

text \<open>
  \<open>load_config\<close>: only \<open>FileNotFoundError\<close> is caught; the decoder's error propagates.
\<close>

definition load_config :: "(string \<Rightarrow> source) \<Rightarrow> string \<Rightarrow> log \<Rightarrow> log \<times> (error + config)" where
  "load_config fs config_file lg =
     (case fs config_file of
        Document c \<Rightarrow> (lg, Inr c)
      | Unparseable \<Rightarrow> (lg, Inl JSONDecodeError)
      | Absent \<Rightarrow> (lg @ [Warning_config_not_found config_file], Inr default_config))"

section \<open>pandas operations used by the detector\<close>

text \<open>\<open>df[names]\<close>: the named columns in the order asked, \<open>KeyError\<close> if one is absent.\<close>

definition getitem :: "dataframe \<Rightarrow> string list \<Rightarrow> error + column list" where
  "getitem df names =
     (if set names \<subseteq> set (columns df)
      then Inr (map (\<lambda>f. the (map_of df f)) names)
      else Inl (KeyError (filter (\<lambda>f. f \<notin> set (columns df)) names)))"

text \<open>\<open>df[name] = values\<close>: replaces the column in place, or appends a new one.\<close>

definition setitem :: "string \<Rightarrow> column \<Rightarrow> dataframe \<Rightarrow> dataframe" where
  "setitem name c df = AList.update name c df"

text \<open>\<open>df[names] = block\<close>: one column assignment per name.\<close>

definition setitems :: "string list \<Rightarrow> column list \<Rightarrow> dataframe \<Rightarrow> dataframe" where
  "setitems names cs df = fold (\<lambda>(f, c). setitem f c) (zip names cs) df"

fun is_Str :: "cell \<Rightarrow> bool" where
  "is_Str (Str _) = True"
| "is_Str _ = False"

fun isnull :: "cell \<Rightarrow> bool" where
  "isnull NaN = True"
| "isnull _ = False"

text \<open>The present (non-missing) numbers of a column.\<close>

fun present :: "column \<Rightarrow> real list" where
  "present [] = []"
| "present (Num v # c) = v # present c"
| "present (_ # c) = present c"

definition mean :: "real list \<Rightarrow> real" where
  "mean xs = sum_list xs / real (length xs)"

text \<open>Population variance and standard deviation (numpy's default, \<open>ddof = 0\<close>).\<close>

definition variance :: "real list \<Rightarrow> real" where
  "variance xs = sum_list (map (\<lambda>x. (x - mean xs)\<^sup>2) xs) / real (length xs)"

definition std :: "real list \<Rightarrow> real" where
  "std xs = sqrt (variance xs)"

text \<open>\<open>Series.mean()\<close> skips missing values; with none present the mean is NaN.\<close>

definition col_mean :: "column \<Rightarrow> cell" where
  "col_mean c = (if present c = [] then NaN else Num (mean (present c)))"

text \<open>\<open>Series.fillna(value)\<close>: a NaN fill value fills nothing.\<close>

definition fillna :: "cell \<Rightarrow> column \<Rightarrow> column" where
  "fillna m c = (if isnull m then c else map (\<lambda>x. if isnull x then m else x) c)"

definition isnull_sum :: "column \<Rightarrow> nat" where
  "isnull_sum c = length (filter isnull c)"

section \<open>scikit-learn operations used by the detector\<close>

text \<open>
  \<open>StandardScaler.fit_transform\<close>. Its input check refuses strings, an empty column list
  and a table without rows; missing values are let through, left out of the statistics
  and kept missing in the output. The fitted statistics (mean, scale) stay in the scaler;
  a column with no present value has none.

  The scale of a column is its standard deviation, unless the scaler takes the column for
  constant, and then it is 1. The test for that is not \<open>var = 0\<close> but a tolerance: the
  variance of \<open>n\<close> values of mean \<open>m\<close> counts as zero when it is at most
  \<open>n * eps * var + (n * m * eps)\<^sup>2\<close>, with \<open>eps\<close> the machine epsilon of a double.
\<close>

definition eps :: real where
  "eps = 1 / 2 ^ 52"

definition is_constant_feature :: "real \<Rightarrow> real \<Rightarrow> nat \<Rightarrow> bool" where
  "is_constant_feature v m n \<longleftrightarrow> v \<le> real n * eps * v + (real n * m * eps)\<^sup>2"

definition column_stats :: "column \<Rightarrow> (real \<times> real) option" where
  "column_stats c =
     (if present c = [] then None
      else Some (mean (present c),
                 (if is_constant_feature (variance (present c)) (mean (present c)) (length (present c))
                  then 1 else std (present c))))"

fun transform_cell :: "(real \<times> real) option \<Rightarrow> cell \<Rightarrow> cell" where
  "transform_cell (Some (m, s)) (Num v) = Num ((v - m) / s)"
| "transform_cell _ (Num v) = NaN"
| "transform_cell _ x = x"

definition scale_column :: "column \<Rightarrow> column" where
  "scale_column c = map (transform_cell (column_stats c)) c"

definition check_scaler_input :: "column list \<Rightarrow> value_error option" where
  "check_scaler_input cs =
     (if list_ex (list_ex is_Str) cs then Some NotNumeric
      else if cs = [] then Some NoFeatures
      else if transpose cs = [] then Some NoSamples
      else None)"

text \<open>
  \<open>IsolationForest\<close>. The random forest itself is a parameter of the model: a scorer
  gives the score of one row from the random source, the ensemble size and the rows the
  forest was fitted on. The random source is a fresh generator seeded with
  \<open>random_state\<close> when that is an integer, and numpy's global generator (whose state
  \<open>'g\<close> is ambient) when it is \<open>None\<close>.
\<close>

datatype 'g rng = Seeded int | Global 'g

type_synonym 'g scorer = "'g rng \<Rightarrow> int \<Rightarrow> real list list \<Rightarrow> real list \<Rightarrow> real"

definition check_random_state :: "int option \<Rightarrow> 'g \<Rightarrow> 'g rng" where
  "check_random_state seed g = (case seed of Some s \<Rightarrow> Seeded s | None \<Rightarrow> Global g)"

text \<open>The fitted forest: what it was built from, and the threshold \<open>offset_\<close>.\<close>

record 'g forest =
  source :: "'g rng"
  estimators :: int
  train :: "real list list"
  offset :: real

fun the_num :: "cell \<Rightarrow> real" where
  "the_num (Num v) = v"
| "the_num _ = 0"

text \<open>
  The input check of the forest: numbers only, none missing, at least one column and one
  row. The rows of the accepted table are handed to the forest.
\<close>

definition check_array :: "column list \<Rightarrow> value_error + real list list" where
  "check_array cs =
     (if list_ex (list_ex is_Str) cs then Inl NotNumeric
      else if list_ex (list_ex isnull) cs then Inl ContainsNaN
      else if cs = [] then Inl NoFeatures
      else if transpose cs = [] then Inl NoSamples
      else Inr (map (map the_num) (transpose cs)))"

text \<open>
  The parameter check of \<open>fit\<close>: a contamination in \<open>(0, 0.5]\<close>, at least one estimator,
  and a \<open>random_state\<close> that is \<open>None\<close> or an integer in \<open>[0, 2\<^sup>3\<^sup>2 - 1]\<close>.
\<close>

definition valid_parameters :: "config \<Rightarrow> bool" where
  "valid_parameters cfg =
     (0 < contamination cfg \<and> contamination cfg \<le> 1 / 2 \<and> 1 \<le> n_estimators cfg
      \<and> (case random_state cfg of None \<Rightarrow> True | Some s \<Rightarrow> 0 \<le> s \<and> s \<le> 2 ^ 32 - 1))"

text \<open>
  \<open>numpy.percentile(a, q)\<close> with linear interpolation between the two closest ranks,
  for a non-empty \<open>a\<close> and \<open>0 \<le> q \<le> 100\<close>.
\<close>

definition percentile :: "real list \<Rightarrow> real \<Rightarrow> real" where
  "percentile a q =
     (let s = sort a;
          n = length s;
          pos = q / 100 * (real n - 1);
          k = nat \<lfloor>pos\<rfloor>;
          g = pos - real k
      in if k + 1 < n then s ! k + (s ! (k + 1) - s ! k) * g else s ! (n - 1))"

definition score_samples :: "'g scorer \<Rightarrow> 'g forest \<Rightarrow> real list list \<Rightarrow> real list" where
  "score_samples sc m X = map (sc (source m) (estimators m) (train m)) X"

text \<open>\<open>fit\<close>: the threshold is the percentile \<open>100 * contamination\<close> of the training scores.\<close>

definition fit :: "'g scorer \<Rightarrow> 'g rng \<Rightarrow> config \<Rightarrow> real list list \<Rightarrow> 'g forest" where
  "fit sc src cfg X =
     (let m0 = \<lparr>source = src, estimators = n_estimators cfg, train = X, offset = 0\<rparr>
      in m0\<lparr>offset := percentile (score_samples sc m0 X) (100 * contamination cfg)\<rparr>)"

text \<open>\<open>predict\<close>: \<open>-1\<close> where the score minus the threshold is negative, \<open>1\<close> elsewhere.\<close>

definition predict :: "'g scorer \<Rightarrow> 'g forest \<Rightarrow> real list list \<Rightarrow> int list" where
  "predict sc m X = map (\<lambda>s. if s - offset m < 0 then - 1 else 1) (score_samples sc m X)"

section \<open>The detector\<close>

record 'g detector =
  config :: config
  scaler :: "(real \<times> real) option list option"
  model :: "'g forest option"

text \<open>\<open>_validate_data\<close>\<close>

definition validate_data :: "'g detector \<Rightarrow> dataframe \<Rightarrow> error + unit" where
  "validate_data self df =
     (let missing_features = set (features (config self)) - set (columns df)
      in if missing_features \<noteq> {} then Inl (ValueError (MissingRequiredFeatures missing_features))
         else Inr ())"

text \<open>\<open>_handle_missing_values\<close>: \<open>mean()\<close> refuses a column that holds strings.\<close>

definition handle_missing_values :: "'g detector \<Rightarrow> dataframe \<Rightarrow> log \<Rightarrow> log \<times> (error + dataframe)" where
  "handle_missing_values self df lg =
     (let fs = features (config self) in
      case getitem df fs of
        Inl e \<Rightarrow> (lg, Inl e)
      | Inr cs \<Rightarrow>
          (let missing_stats = map isnull_sum cs;
               lg' = (if list_ex (\<lambda>n. n \<noteq> 0) missing_stats
                      then lg @ [Warning_missing_values (zip fs missing_stats)] else lg)
           in if list_ex (list_ex is_Str) cs then (lg', Inl TypeError)
              else (lg', Inr (setitems fs (map (\<lambda>c. fillna (col_mean c) c) cs) df))))"

text \<open>\<open>_scale_features\<close>\<close>

definition scale_features :: "'g detector \<Rightarrow> dataframe \<Rightarrow> error + 'g detector \<times> dataframe" where
  "scale_features self df =
     (let fs = features (config self) in
      case getitem df fs of
        Inl e \<Rightarrow> Inl e
      | Inr cs \<Rightarrow>
          (case check_scaler_input cs of
             Some v \<Rightarrow> Inl (ValueError v)
           | None \<Rightarrow>
               Inr (self\<lparr>scaler := Some (map column_stats cs)\<rparr>,
                    setitems fs (map scale_column cs) df)))"

text \<open>
  \<open>load_and_preprocess_data\<close>: \<open>read_csv\<close> is the file system as pandas reads it. Any
  exception is logged and raised again.
\<close>

definition load_and_preprocess_data ::
  "(string \<Rightarrow> error + dataframe) \<Rightarrow> 'g detector \<Rightarrow> string \<Rightarrow> log
     \<Rightarrow> log \<times> (error + 'g detector \<times> dataframe)" where
  "load_and_preprocess_data read_csv self filepath lg =
     (case read_csv filepath of
        Inl e \<Rightarrow> (lg @ [Error_loading e], Inl e)
      | Inr df \<Rightarrow>
          (let lg1 = lg @ [Info_loaded filepath] in
           case validate_data self df of
             Inl e \<Rightarrow> (lg1 @ [Error_loading e], Inl e)
           | Inr _ \<Rightarrow>
               (case handle_missing_values self df lg1 of
                  (lg2, Inl e) \<Rightarrow> (lg2 @ [Error_loading e], Inl e)
                | (lg2, Inr df2) \<Rightarrow>
                    (case scale_features self df2 of
                       Inl e \<Rightarrow> (lg2 @ [Error_loading e], Inl e)
                     | Inr r \<Rightarrow> (lg2, Inr r)))))"

text \<open>The dictionary \<open>{1: 'Normal', -1: 'Anomaly'}\<close> of \<open>Series.map\<close>; no entry gives NaN.\<close>

definition map_label :: "int \<Rightarrow> cell" where
  "map_label p = (if p = 1 then Str ''Normal'' else if p = - 1 then Str ''Anomaly'' else NaN)"

definition count_label :: "string \<Rightarrow> column \<Rightarrow> nat" where
  "count_label l c = length (filter (\<lambda>x. x = Str l) c)"

text \<open>
  \<open>detect_anomalies\<close>: \<open>g\<close> is the state of numpy's global generator at the call. The
  feature columns are read twice, before fitting and again, from the table that now has
  the label column, for the scores. Any exception is logged and raised again.
\<close>

definition detect_anomalies ::
  "'g scorer \<Rightarrow> 'g \<Rightarrow> 'g detector \<Rightarrow> dataframe \<Rightarrow> log
     \<Rightarrow> log \<times> (error + 'g detector \<times> dataframe)" where
  "detect_anomalies sc g self df lg =
     (let cfg = config self; fs = features cfg in
      case getitem df fs of
        Inl e \<Rightarrow> (lg @ [Error_detection e], Inl e)
      | Inr cs \<Rightarrow>
          if \<not> valid_parameters cfg
          then (lg @ [Error_detection (ValueError InvalidParameter)], Inl (ValueError InvalidParameter))
          else
            (case check_array cs of
               Inl v \<Rightarrow> (lg @ [Error_detection (ValueError v)], Inl (ValueError v))
             | Inr X \<Rightarrow>
                 (let m = fit sc (check_random_state (random_state cfg) g) cfg X;
                      predictions = predict sc m X;
                      df1 = setitem ''anomaly'' (map map_label predictions) df
                  in case getitem df1 fs of
                       Inl e \<Rightarrow> (lg @ [Error_detection e], Inl e)
                     | Inr cs1 \<Rightarrow>
                         (case check_array cs1 of
                            Inl v \<Rightarrow> (lg @ [Error_detection (ValueError v)], Inl (ValueError v))
                          | Inr X1 \<Rightarrow>
                              (let scores = score_samples sc m X1;
                                   df2 = setitem ''anomaly_score'' (map Num scores) df1;
                                   labels = map map_label predictions
                               in (lg @ [Info_anomaly_stats (length labels)
                                           (count_label ''Normal'' labels)
                                           (count_label ''Anomaly'' labels)],
                                   Inr (self\<lparr>model := Some m\<rparr>, df2)))))))"

section \<open>The synthetic traffic generator\<close>

text \<open>
  Double-precision arithmetic, for the one product the seed is made of. A double is a
  real of the form \<open>m * 2\<^sup>e\<close> with \<open>\<bar>m\<bar> < 2\<^sup>5\<^sup>3\<close>; the result of an operation is the exact
  result rounded to the nearest double, ties to the even significand, and infinite
  (\<open>None\<close>) from \<open>2\<^sup>1\<^sup>0\<^sup>2\<^sup>4\<close> on.
\<close>

fun bit_length :: "nat \<Rightarrow> nat" where
  "bit_length n = (if n = 0 then 0 else Suc (bit_length (n div 2)))"

declare bit_length.simps [simp del]

definition pow2 :: "int \<Rightarrow> real" where
  "pow2 e = (if 0 \<le> e then 2 ^ nat e else 1 / 2 ^ nat (- e))"

text \<open>The binary exponent of a positive real: the \<open>e\<close> with \<open>2\<^sup>e \<le> x < 2\<^sup>e\<^sup>+\<^sup>1\<close>.\<close>

definition float_exponent :: "real \<Rightarrow> int" where
  "float_exponent x =
     (if 1 \<le> x then int (bit_length (nat \<lfloor>x\<rfloor>)) - 1
      else - int (bit_length (nat (\<lceil>1 / x\<rceil> - 1))))"

definition round_half_even :: "real \<Rightarrow> int" where
  "round_half_even x =
     (let f = \<lfloor>x\<rfloor>; r = x - of_int f
      in if r < 1 / 2 then f else if 1 / 2 < r then f + 1 else if even f then f else f + 1)"

definition float_round :: "real \<Rightarrow> real option" where
  "float_round x =
     (if x = 0 then Some 0
      else (let e = max (float_exponent \<bar>x\<bar>) (- 1022) - 52;
                y = of_int (round_half_even (\<bar>x\<bar> / pow2 e)) * pow2 e
            in if 2 ^ 1024 \<le> y then None else Some (sgn x * y)))"

text \<open>Python's \<open>int()\<close> of a float: truncation towards zero.\<close>

definition trunc :: "real \<Rightarrow> int" where
  "trunc x = (if 0 \<le> x then \<lfloor>x\<rfloor> else \<lceil>x\<rceil>)"

text \<open>
  \<open>int(time.time() * 1000)\<close> when the clock reads the double \<open>t\<close> (seconds): the product
  is a double, and \<open>int()\<close> of an infinite one raises \<open>OverflowError\<close>.
\<close>

definition clock_ms :: "real \<Rightarrow> error + int" where
  "clock_ms t = (case float_round (t * 1000) of None \<Rightarrow> Inl OverflowError | Some p \<Rightarrow> Inr (trunc p))"

text \<open>The seed of a call made when \<open>time.time()\<close> reads \<open>t\<close>.\<close>

definition current_seed :: "real \<Rightarrow> error + int" where
  "current_seed t = (case clock_ms t of Inl e \<Rightarrow> Inl e | Inr ms \<Rightarrow> Inr (ms mod 2 ^ 32))"

text \<open>
  \<open>generate_sample_data(start_date, duration_hours, output_file)\<close>. The clock
  (\<open>time.time()\<close>) and \<open>datetime.now()\<close> are read from the environment.
  \<open>numpy.random.seed\<close> refuses a seed outside \<open>[0, 2\<^sup>3\<^sup>2 - 1]\<close>. What numpy and pandas
  do after the seeding is a parameter: a sampler gives the table they build, or the way
  they fail, from the seed, the start date, the number of records, the number of normal
  ones and the sizes of the three anomaly groups. The product with 0.85 is taken exactly;
  on every number of records that a date range of minutes can hold its truncation is
  that of the double product. The result is the file written and the table in it.
\<close>

type_synonym ('d, 't) sampler = "int \<Rightarrow> 'd \<Rightarrow> int \<Rightarrow> int \<Rightarrow> int list \<Rightarrow> 't"

definition generate_sample_data ::
  "('d, 't) sampler \<Rightarrow> real \<Rightarrow> 'd \<Rightarrow> 'd option \<Rightarrow> int \<Rightarrow> string \<Rightarrow> error + string \<times> 't" where
  "generate_sample_data np clock now start_date duration_hours output_file =
     (case current_seed clock of
        Inl e \<Rightarrow> Inl e
      | Inr seed \<Rightarrow>
          if \<not> (0 \<le> seed \<and> seed \<le> 2 ^ 32 - 1) then Inl (ValueError InvalidParameter)
          else
            (let start = (case start_date of None \<Rightarrow> now | Some d \<Rightarrow> d);
                 total_records = duration_hours * 60
             in if total_records < 0 then Inl (ValueError InvalidParameter)
                else
                  (let n_normal = trunc (real_of_int total_records * (85 / 100));
                       n_anomalous = total_records - n_normal;
                       n_each_anomaly = n_anomalous div 3;
                       remainder = n_anomalous mod 3;
                       anomaly_sizes = map (\<lambda>i. n_each_anomaly + (if i < remainder then 1 else 0)) [0, 1, 2]
                   in Inr (output_file, np seed start total_records n_normal anomaly_sizes))))"

section \<open>Concrete inputs\<close>

text \<open>A configuration with two features, and a detector that was never run.\<close>

definition cfg_ab :: config where
  "cfg_ab = \<lparr>features = [''a'', ''b''], contamination = 1 / 2, n_estimators = 100,
             random_state = Some 42\<rparr>"

definition det_ab :: "nat detector" where
  "det_ab = \<lparr>config = cfg_ab, scaler = None, model = None\<rparr>"

text \<open>A table with a missing value, a context column and a constant feature.\<close>

definition df_ab :: dataframe where
  "df_ab = [(''a'', [Num 1, NaN, Num 3]), (''protocol'', [Str ''TCP'', Str ''UDP'', Str ''TCP'']),
            (''b'', [Num 5, Num 5, Num 5])]"

text \<open>
  A table whose first feature is far from constant for a reader, and constant for the
  scaler: its variance is 4 and the tolerance is about 19.7.
\<close>

definition df_near :: dataframe where
  "df_near = [(''a'', [Num (10 ^ 16), Num (10 ^ 16 + 4)]), (''b'', [Num 0, Num 2])]"


text \<open>
  Two scorers for evaluation. The first scores a row by its distance from the origin. The
  second gives every row the score \<open>-1/2\<close>, as the forest does on a table whose rows are all
  equal (no split is possible, and every path has the expected length).
\<close>

definition norm_scorer :: "nat scorer" where
  "norm_scorer src n X row = - sum_list (map abs row)"

definition flat_scorer :: "nat scorer" where
  "flat_scorer src n X row = - 1 / 2"

text \<open>
  A scorer that depends on the random source: the parity of the seed, or of the state of
  the global generator, decides the sign of the score. And a detector without a seed.
\<close>

definition parity_scorer :: "nat scorer" where
  "parity_scorer src n X row =
     (case src of
        Seeded s \<Rightarrow> (if even s then - 1 else 1)
      | Global g \<Rightarrow> (if even g then - 1 else 1)) * sum_list (map abs row)"

definition det_none :: "nat detector" where
  "det_none = \<lparr>config = cfg_ab\<lparr>random_state := None\<rparr>, scaler = None, model = None\<rparr>"

text \<open>Tables to detect on: distinct rows, equal rows, one row, and one with a label column.\<close>

definition df_three :: dataframe where
  "df_three = [(''a'', [Num 0, Num 1, Num 3]), (''b'', [Num 0, Num 0, Num 0])]"


definition df_one :: dataframe where
  "df_one = [(''a'', [Num 0]), (''b'', [Num 0])]"

definition df_labelled :: dataframe where
  "df_labelled = [(''a'', [Num 0, Num 1, Num 3]), (''anomaly'', [Str ''no'', Str ''no'', Str ''yes'']),
                  (''b'', [Num 0, Num 0, Num 0])]"

text \<open>A sampler that returns what it was given: all that the draws depend on.\<close>

definition np_args :: "(nat, int \<times> nat \<times> int \<times> int \<times> int list) sampler" where
  "np_args seed start n n_normal sizes = (seed, start, n, n_normal, sizes)"

section \<open>Configuration loading\<close>

text \<open>
  Claim C5, as stated, fails for a source that is present but not JSON: the decoder's
  exception is not caught and \<open>load_config\<close> raises.
\<close>

theorem load_config_unparseable_counterexample:
  "snd (load_config (\<lambda>p. Unparseable) ''config.json'' []) = Inl JSONDecodeError"
  by (simp add: load_config_def)

text \<open>
  Claim C5, amended: for an absent source \<open>load_config\<close> raises nothing, returns the
  defaults (three placeholder features, contamination 0.05, 100 estimators, seed 42) and
  logs one warning; for an unparseable source it raises the decoder's error and logs
  nothing.
\<close>

theorem load_config_absent:
  "(fs config_file = Absent \<longrightarrow>
      load_config fs config_file lg = (lg @ [Warning_config_not_found config_file], Inr default_config)
      \<and> is_warning (Warning_config_not_found config_file)
      \<and> features default_config = [''feature1'', ''feature2'', ''feature3'']
      \<and> contamination default_config = 5 / 100
      \<and> n_estimators default_config = 100
      \<and> random_state default_config = Some 42)
   \<and> (fs config_file = Unparseable \<longrightarrow> load_config fs config_file lg = (lg, Inl JSONDecodeError))"
  by (simp add: load_config_def default_config_def)

theorem load_config_absent_witness:
  "(\<lambda>p. Absent) ''config.json'' = Absent
   \<and> load_config (\<lambda>p. Absent) ''config.json'' []
       = ([Warning_config_not_found ''config.json''], Inr default_config)"
  using load_config_absent [of "\<lambda>p. Absent" "''config.json''" "[]"] by simp

section \<open>Validation\<close>

text \<open>
  Claim C8: validation fails exactly when some configured feature is not a column of the
  table; the error then carries exactly the set of missing names; a table that misses
  exactly one configured feature fails reporting exactly that one.
\<close>

theorem validate_data_missing_features:
  "(isl (validate_data self df) \<longleftrightarrow> set (features (config self)) - set (columns df) \<noteq> {})
   \<and> (\<forall>e. validate_data self df = Inl e \<longrightarrow>
          e = ValueError (MissingRequiredFeatures (set (features (config self)) - set (columns df))))
   \<and> (\<forall>f. set (features (config self)) - set (columns df) = {f} \<longrightarrow>
          validate_data self df = Inl (ValueError (MissingRequiredFeatures {f})))"
  by (auto simp: validate_data_def Let_def)

theorem validate_data_missing_features_witness:
  "set (features (config det_ab)) - set (columns [(''a'', [Num 1]), (''protocol'', [Str ''TCP''])]) = {''b''}
   \<and> validate_data det_ab [(''a'', [Num 1]), (''protocol'', [Str ''TCP''])]
       = Inl (ValueError (MissingRequiredFeatures {''b''}))"
proof -
  have h: "set (features (config det_ab))
             - set (columns [(''a'', [Num 1]), (''protocol'', [Str ''TCP''])]) = {''b''}"
    by (auto simp: det_ab_def cfg_ab_def columns_def)
  from validate_data_missing_features [of det_ab "[(''a'', [Num 1]), (''protocol'', [Str ''TCP''])]"] h
  show ?thesis by blast
qed

section \<open>Rounding to a double\<close>

lemma bit_length_eqI:
  "0 < k \<Longrightarrow> 2 ^ (k - 1) \<le> n \<Longrightarrow> n < 2 ^ k \<Longrightarrow> bit_length n = k"
proof (induction k arbitrary: n)
  case 0
  then show ?case by simp
next
  case (Suc k)
  from Suc.prems have n0: "n \<noteq> 0" by auto
  show ?case
  proof (cases "k = 0")
    case True
    with Suc.prems have "n = 1" by simp
    then show ?thesis using True by (simp add: bit_length.simps [of "Suc 0"] bit_length.simps [of 0])
  next
    case False
    then obtain j where k: "k = Suc j" by (cases k) auto
    from Suc.prems k have "2 ^ (k - 1) \<le> n div 2" "n div 2 < 2 ^ k" by auto
    from Suc.IH [OF _ this] False have "bit_length (n div 2) = k" by simp
    with n0 show ?thesis by (simp add: bit_length.simps [of n])
  qed
qed

lemma float_exponent_eqI:
  assumes "0 < x" and "pow2 e \<le> x" and "x < pow2 (e + 1)"
  shows "float_exponent x = e"
proof (cases "1 \<le> x")
  case True
  have e0: "0 \<le> e"
  proof (rule ccontr)
    assume "\<not> 0 \<le> e"
    then have "e + 1 \<le> 0" by simp
    then have "pow2 (e + 1) \<le> 1"
      by (cases "e + 1 = 0") (simp_all add: pow2_def divide_le_eq_1)
    with assms(3) True show False by simp
  qed
  define k where "k = nat e"
  from e0 have p: "pow2 e = 2 ^ k" "pow2 (e + 1) = 2 ^ (Suc k)"
    by (simp_all add: pow2_def k_def nat_add_distrib)
  from assms(2) p have "(2::real) ^ k \<le> x" by simp
  then have "real_of_int (2 ^ k) \<le> x" by simp
  then have "2 ^ k \<le> \<lfloor>x\<rfloor>" by (simp only: le_floor_iff)
  then have lo: "2 ^ k \<le> nat \<lfloor>x\<rfloor>"
    using True by (simp add: le_nat_iff)
  from assms(3) p have "x < real_of_int (2 ^ Suc k)" by simp
  then have "\<lfloor>x\<rfloor> < 2 ^ Suc k" by (simp only: floor_less_iff)
  then have hi: "nat \<lfloor>x\<rfloor> < 2 ^ Suc k"
    using True by (simp add: nat_less_iff)
  from bit_length_eqI [of "Suc k" "nat \<lfloor>x\<rfloor>"] lo hi have "bit_length (nat \<lfloor>x\<rfloor>) = Suc k" by simp
  with True e0 show ?thesis by (simp add: float_exponent_def k_def)
next
  case False
  then have x1: "x < 1" by simp
  have e0: "e < 0"
  proof (rule ccontr)
    assume "\<not> e < 0"
    then have "1 \<le> pow2 e" by (simp add: pow2_def)
    with assms(2) x1 show False by simp
  qed
  define k where "k = nat (- e)"
  from e0 have k0: "0 < k" by (simp add: k_def)
  from e0 have p: "pow2 e = 1 / 2 ^ k" by (simp add: pow2_def k_def)
  have p1: "pow2 (e + 1) = 1 / 2 ^ (k - 1)"
  proof (cases "e + 1 = 0")
    case True
    then have "k = 1" by (simp add: k_def)
    with True show ?thesis by (simp add: pow2_def)
  next
    case False
    with e0 have "e + 1 < 0" by simp
    moreover then have "nat (- (e + 1)) = k - 1" by (simp add: k_def)
    ultimately show ?thesis by (simp add: pow2_def)
  qed
  from assms(1,2) p have up: "1 / x \<le> 2 ^ k"
    by (simp add: field_simps)
  from assms(3) p1 have "x < 1 / 2 ^ (k - 1)" by simp
  with assms(1) have lw: "2 ^ (k - 1) < 1 / x"
    by (simp add: field_simps)
  from up have "1 / x \<le> real_of_int (2 ^ k)" by simp
  then have c1: "\<lceil>1 / x\<rceil> \<le> 2 ^ k" by (simp only: ceiling_le_iff)
  from lw have "real_of_int (2 ^ (k - 1)) < 1 / x" by simp
  then have c2: "2 ^ (k - 1) < \<lceil>1 / x\<rceil>" by (simp only: less_ceiling_iff)
  define m where "m = nat (\<lceil>1 / x\<rceil> - 1)"
  have "(1::int) \<le> 2 ^ (k - 1)" by simp
  with c2 have mpos: "0 \<le> \<lceil>1 / x\<rceil> - 1" by linarith
  from c1 mpos have hi: "m < 2 ^ k"
    unfolding m_def by (simp add: nat_less_iff)
  from c2 have "2 ^ (k - 1) \<le> \<lceil>1 / x\<rceil> - 1" by simp
  then have lo: "2 ^ (k - 1) \<le> m"
    unfolding m_def by (simp add: le_nat_iff)
  from bit_length_eqI [OF k0 lo hi] have "bit_length m = k" .
  with False e0 show ?thesis by (simp add: float_exponent_def m_def k_def)
qed


lemma pow2_powi: "pow2 e = 2 powi e"
  by (simp add: pow2_def power_int_def inverse_eq_divide power_one_over)

lemma pow2_add: "pow2 (a + b) = pow2 a * pow2 b"
  by (simp add: pow2_powi power_int_add)

lemma pow2_pos: "0 < pow2 e"
  by (simp add: pow2_def)

lemma pow2_mono: "a \<le> b \<Longrightarrow> pow2 a \<le> pow2 b"
proof -
  assume "a \<le> b"
  then have "1 \<le> pow2 (b - a)" by (simp add: pow2_def)
  then have "pow2 a * 1 \<le> pow2 a * pow2 (b - a)"
    using pow2_pos [of a] by (simp only: mult_le_cancel_left_pos)
  also have "\<dots> = pow2 (a + (b - a))" by (rule pow2_add [symmetric])
  finally show ?thesis by simp
qed

lemma round_half_even_eqI:
  "\<bar>x - of_int m\<bar> < 1 / 2 \<Longrightarrow> round_half_even x = m"
proof -
  assume a: "\<bar>x - of_int m\<bar> < 1 / 2"
  show ?thesis
  proof (cases "of_int m \<le> x")
    case True
    with a have "\<lfloor>x\<rfloor> = m" by (simp add: floor_eq_iff)
    with a True show ?thesis by (simp add: round_half_even_def Let_def)
  next
    case False
    with a have f: "\<lfloor>x\<rfloor> = m - 1" by (simp add: floor_eq_iff)
    with a False have "1 / 2 < x - of_int \<lfloor>x\<rfloor>" by simp
    with f show ?thesis by (simp add: round_half_even_def Let_def)
  qed
qed

lemma float_round_normal:
  assumes "0 < x" and "pow2 e \<le> x" and "x < pow2 (e + 1)" and "- 1022 \<le> e" and "e \<le> 1022"
    and "\<bar>x / pow2 (e - 52) - of_int m\<bar> < 1 / 2"
  shows "float_round x = Some (of_int m * pow2 (e - 52))"
proof -
  from float_exponent_eqI [OF assms(1-3)] assms(1) have fe: "float_exponent \<bar>x\<bar> = e" by simp
  from assms(4) have mx: "max e (- 1022) - 52 = e - 52" by simp
  from round_half_even_eqI [OF assms(6)] have r: "round_half_even (\<bar>x\<bar> / pow2 (e - 52)) = m"
    using assms(1) by simp
  have e1: "e + 1 = 53 + (e - 52)" by simp
  have "pow2 (e + 1) = pow2 53 * pow2 (e - 52)"
    unfolding e1 by (rule pow2_add)
  with assms(3) pow2_pos [of "e - 52"] have "x / pow2 (e - 52) < pow2 53"
    by (simp add: field_simps)
  with assms(6) have "of_int m < pow2 53 + 1 / 2" by linarith
  then have "real_of_int m < real_of_int (2 ^ 53) + 1 / 2" by (simp add: pow2_def)
  then have "m \<le> 2 ^ 53" by linarith
  then have "real_of_int m \<le> pow2 53" by (simp add: pow2_def)
  then have "of_int m * pow2 (e - 52) \<le> pow2 53 * pow2 (e - 52)"
    using pow2_pos [of "e - 52"] by (simp add: mult_right_mono)
  also have "\<dots> = pow2 (e + 1)" unfolding e1 by (rule pow2_add [symmetric])
  also have "\<dots> \<le> pow2 1023"
    using assms(5) by (intro pow2_mono) simp
  also have "\<dots> < 2 ^ 1024" by (simp add: pow2_def)
  finally have "\<not> 2 ^ 1024 \<le> of_int m * pow2 (e - 52)" by simp
  with fe mx r assms(1) show ?thesis by (simp add: float_round_def Let_def)
qed

text \<open>
  Four clock readings. The product of the third with 1000 is a double; that of the fourth
  is not, and rounds up to the next millisecond, which the exact product has not reached.
\<close>

lemma clock_ms_0: "clock_ms 1762233600 = Inr 1762233600000"
proof -
  have "float_round 1762233600000 = Some (of_int 7218108825600000 * pow2 (40 - 52))"
    by (rule float_round_normal) (simp_all add: pow2_def)
  then show ?thesis by (simp add: clock_ms_def trunc_def pow2_def)
qed

lemma clock_ms_1: "clock_ms 1762233601 = Inr 1762233601000"
proof -
  have "float_round 1762233601000 = Some (of_int 7218108829696000 * pow2 (40 - 52))"
    by (rule float_round_normal) (simp_all add: pow2_def)
  then show ?thesis by (simp add: clock_ms_def trunc_def pow2_def)
qed

lemma clock_ms_same: "clock_ms (1762233600 + 1 / 4096) = Inr 1762233600000"
proof -
  have "float_round ((1762233600 + 1 / 4096) * 1000)
          = Some (of_int 7218108825601000 * pow2 (40 - 52))"
    by (rule float_round_normal) (simp_all add: pow2_def)
  then show ?thesis by (simp add: clock_ms_def trunc_def pow2_def)
qed

lemma clock_ms_rounds_up:
  "clock_ms (1762233600 + 4194 / 2 ^ 22) = Inr 1762233600001
   \<and> trunc ((1762233600 + 4194 / 2 ^ 22) * 1000) = 1762233600000"
proof -
  have "float_round ((1762233600 + 4194 / 2 ^ 22) * 1000)
          = Some (of_int 7218108825604096 * pow2 (40 - 52))"
    by (rule float_round_normal) (simp_all add: pow2_def)
  then show ?thesis by (simp add: clock_ms_def trunc_def pow2_def)
qed

lemma mod_eq_close:
  fixes a b :: int
  assumes "a mod 2 ^ 32 = b mod 2 ^ 32" and "\<bar>a - b\<bar> < 2 ^ 32"
  shows "a = b"
proof -
  from assms(1) have "(2 ^ 32 :: int) dvd a - b" by (simp add: mod_eq_dvd_iff)
  then obtain k where k: "a - b = 2 ^ 32 * k" by (auto simp: dvd_def)
  with assms(2) have "\<bar>k\<bar> < 1" by (simp add: abs_mult)
  then have "k = 0" by simp
  with k show ?thesis by simp
qed

lemma anomaly_sizes_sum:
  "sum_list (map (\<lambda>i. a div 3 + (if i < a mod 3 then 1 else 0)) [0, 1, 2]) = (a::int)"
proof -
  have "sum_list (map (\<lambda>i. a div 3 + (if i < a mod 3 then 1 else 0)) [0, 1, 2])
          = 3 * (a div 3) + ((if 0 < a mod 3 then 1 else 0) + (if 1 < a mod 3 then 1 else 0)
              + (if 2 < a mod 3 then 1 else 0))"
    by simp
  also have "\<dots> = a" by presburger
  finally show ?thesis .
qed

lemma generate_sample_data_Inr:
  assumes "current_seed t = Inr seed" and "0 \<le> seed" and "seed \<le> 2 ^ 32 - 1" and "0 \<le> h"
  shows "\<exists>n sizes. generate_sample_data np t now (Some d) h out = Inr (out, np seed d (h * 60) n sizes)
           \<and> n = trunc (real_of_int (h * 60) * (85 / 100)) \<and> sum_list sizes = h * 60 - n"
proof -
  define n where "n = trunc (real_of_int (h * 60) * (85 / 100))"
  define sizes where
    "sizes = map (\<lambda>i. (h * 60 - n) div 3 + (if i < (h * 60 - n) mod 3 then 1 else 0)) [0, 1, 2]"
  from assms(4) have "\<not> h * 60 < 0" by simp
  with assms(1-3) have "generate_sample_data np t now (Some d) h out
      = Inr (out, np seed d (h * 60) n sizes)"
    unfolding n_def sizes_def by (simp add: generate_sample_data_def Let_def)
  moreover have "sum_list sizes = h * 60 - n"
    unfolding sizes_def by (rule anomaly_sizes_sum)
  ultimately show ?thesis using n_def by blast
qed

section \<open>The generator's seed\<close>

text \<open>
  Claim C3, as stated, fails: the generator has no seed argument. Two calls with the same
  start date, duration and output file, made one second apart, seed numpy differently, and
  the sampler is handed different seeds.
\<close>

theorem generate_sample_data_clock_counterexample:
  "generate_sample_data np_args 1762233600 0 (Some 0) 24 ''network_traffic.csv''
     = Inr (''network_traffic.csv'', 1297008640, 0, 1440, 1224, [72, 72, 72])
   \<and> generate_sample_data np_args 1762233601 0 (Some 0) 24 ''network_traffic.csv''
     = Inr (''network_traffic.csv'', 1297009640, 0, 1440, 1224, [72, 72, 72])"
  by (simp add: generate_sample_data_def current_seed_def clock_ms_0 clock_ms_1 trunc_def
      np_args_def Let_def)

text \<open>
  Claim C3, amended: the seed is not an input. Every call seeds numpy with the clock in
  milliseconds modulo \<open>2\<^sup>3\<^sup>2\<close>, which numpy always accepts, and fails before seeding only when
  the millisecond count is not finite. With an explicit start date and a duration that is
  not negative the result is what the sampler makes of that seed, of one record per minute,
  of the 85 percent of them (rounded down) that are normal and of three anomaly groups that
  share the rest. So two calls with
  the same start date, duration and output file return identical results whenever their
  clock readings give the same seed, and they are seeded differently whenever their
  millisecond counts differ by less than \<open>2\<^sup>3\<^sup>2\<close>.
\<close>

theorem generate_sample_data_seed_from_clock:
  "(case clock_ms t of
      Inl e \<Rightarrow> generate_sample_data np t now start_date h out = Inl e
    | Inr ms \<Rightarrow>
        current_seed t = Inr (ms mod 2 ^ 32) \<and> 0 \<le> ms mod 2 ^ 32 \<and> ms mod 2 ^ 32 \<le> 2 ^ 32 - 1
        \<and> (0 \<le> h \<longrightarrow>
             (\<exists>n sizes. generate_sample_data np t now (Some d) h out
                           = Inr (out, np (ms mod 2 ^ 32) d (h * 60) n sizes)
                  \<and> n = trunc (real_of_int (h * 60) * (85 / 100)) \<and> sum_list sizes = h * 60 - n)))
   \<and> (current_seed t1 = current_seed t2 \<longrightarrow>
        generate_sample_data np t1 now1 (Some d) h out
          = generate_sample_data np t2 now2 (Some d) h out)
   \<and> (clock_ms t1 = Inr m1 \<and> clock_ms t2 = Inr m2 \<and> m1 \<noteq> m2 \<and> \<bar>m1 - m2\<bar> < 2 ^ 32 \<longrightarrow>
        current_seed t1 \<noteq> current_seed t2)"
proof (intro conjI impI)
  show "case clock_ms t of
      Inl e \<Rightarrow> generate_sample_data np t now start_date h out = Inl e
    | Inr ms \<Rightarrow>
        current_seed t = Inr (ms mod 2 ^ 32) \<and> 0 \<le> ms mod 2 ^ 32 \<and> ms mod 2 ^ 32 \<le> 2 ^ 32 - 1
        \<and> (0 \<le> h \<longrightarrow>
             (\<exists>n sizes. generate_sample_data np t now (Some d) h out
                           = Inr (out, np (ms mod 2 ^ 32) d (h * 60) n sizes)
                  \<and> n = trunc (real_of_int (h * 60) * (85 / 100)) \<and> sum_list sizes = h * 60 - n))"
  proof (cases "clock_ms t")
    case (Inl e)
    then show ?thesis by (simp add: generate_sample_data_def current_seed_def)
  next
    case (Inr ms)
    have r: "0 \<le> ms mod 2 ^ 32" "ms mod 2 ^ 32 \<le> 2 ^ 32 - 1"
      using pos_mod_bound [of "2 ^ 32" ms] by simp_all
    from Inr have s: "current_seed t = Inr (ms mod 2 ^ 32)" by (simp add: current_seed_def)
    have "\<exists>n sizes. generate_sample_data np t now (Some d) h out
                           = Inr (out, np (ms mod 2 ^ 32) d (h * 60) n sizes)
                  \<and> n = trunc (real_of_int (h * 60) * (85 / 100)) \<and> sum_list sizes = h * 60 - n"
      if "0 \<le> h"
      by (rule generate_sample_data_Inr [OF s r that])
    with Inr s r show ?thesis by simp
  qed
next
  assume "current_seed t1 = current_seed t2"
  then show "generate_sample_data np t1 now1 (Some d) h out
          = generate_sample_data np t2 now2 (Some d) h out"
    by (simp add: generate_sample_data_def Let_def split: sum.splits)
next
  assume a: "clock_ms t1 = Inr m1 \<and> clock_ms t2 = Inr m2 \<and> m1 \<noteq> m2 \<and> \<bar>m1 - m2\<bar> < 2 ^ 32"
  show "current_seed t1 \<noteq> current_seed t2"
  proof
    assume "current_seed t1 = current_seed t2"
    with a have "m1 mod 2 ^ 32 = m2 mod 2 ^ 32" by (simp add: current_seed_def)
    from mod_eq_close [OF this] a show False by simp
  qed
qed

theorem generate_sample_data_seed_from_clock_witness:
  "clock_ms 1762233600 = Inr 1762233600000
   \<and> clock_ms (1762233600 + 1 / 4096) = Inr 1762233600000
   \<and> clock_ms 1762233601 = Inr 1762233601000
   \<and> generate_sample_data np_args 1762233600 0 (Some 5) 24 ''network_traffic.csv''
       = Inr (''network_traffic.csv'', 1297008640, 5, 1440, 1224, [72, 72, 72])
   \<and> generate_sample_data np_args (1762233600 + 1 / 4096) 1 (Some 5) 24 ''network_traffic.csv''
       = Inr (''network_traffic.csv'', 1297008640, 5, 1440, 1224, [72, 72, 72])
   \<and> current_seed 1762233600 \<noteq> current_seed 1762233601"
proof -
  note t = generate_sample_data_seed_from_clock
  have s: "current_seed 1762233600 = current_seed (1762233600 + 1 / 4096)"
    unfolding current_seed_def clock_ms_0 clock_ms_same by simp
  have g: "generate_sample_data np_args 1762233600 0 (Some 5) 24 ''network_traffic.csv''
       = Inr (''network_traffic.csv'', 1297008640, 5, 1440, 1224, [72, 72, 72])"
    by (simp add: generate_sample_data_def current_seed_def clock_ms_0 trunc_def np_args_def Let_def)
  from t [where np = np_args and t = 0 and now = 0 and start_date = None and h = 24
             and out = "''network_traffic.csv''" and d = 5 and ?t1.0 = 1762233600
             and ?t2.0 = "1762233600 + 1 / 4096" and ?now1.0 = 0 and ?now2.0 = 1
             and ?m1.0 = 0 and ?m2.0 = 0, THEN conjunct2, THEN conjunct1]
    s g
  have g': "generate_sample_data np_args (1762233600 + 1 / 4096) 1 (Some 5) 24 ''network_traffic.csv''
       = Inr (''network_traffic.csv'', 1297008640, 5, 1440, 1224, [72, 72, 72])"
    by metis
  from t [where np = np_args and t = 0 and now = 0 and start_date = None and h = 24
             and out = "''network_traffic.csv''" and d = 5 and ?t1.0 = 1762233600
             and ?t2.0 = 1762233601 and ?now1.0 = 0 and ?now2.0 = 1
             and ?m1.0 = 1762233600000 and ?m2.0 = 1762233601000, THEN conjunct2, THEN conjunct2]
    clock_ms_0 clock_ms_1
  have d: "current_seed 1762233600 \<noteq> current_seed 1762233601" by simp
  from clock_ms_0 clock_ms_same clock_ms_1 g g' d show ?thesis by blast
qed

section \<open>Column assignment\<close>

lemma setitems_updates: "setitems fs cs df = AList.updates fs cs df"
proof -
  have "(\<lambda>(f, c). setitem f c) = (case_prod AList.update :: string \<times> column \<Rightarrow> _)"
    by (auto simp: fun_eq_iff setitem_def)
  then show ?thesis by (simp add: setitems_def AList.updates_def)
qed

lemma map_of_setitems: "map_of (setitems fs cs df) = (map_of df)(fs [\<mapsto>] cs)"
  by (simp add: setitems_updates updates_conv')

lemma fold_update_keys:
  "fst ` set kvs \<subseteq> set (map fst al) \<Longrightarrow> map fst (fold (case_prod AList.update) kvs al) = map fst al"
proof (induction kvs arbitrary: al)
  case Nil
  then show ?case by simp
next
  case (Cons kv kvs)
  obtain k v where kv: "kv = (k, v)" by (cases kv)
  from Cons.prems kv have k: "k \<in> set (map fst al)" by simp
  then have keys: "map fst (AList.update k v al) = map fst al"
    by (simp add: update_keys)
  with Cons.prems have "fst ` set kvs \<subseteq> set (map fst (AList.update k v al))" by simp
  from Cons.IH [OF this] keys kv show ?case by simp
qed

lemma columns_setitems:
  "set fs \<subseteq> set (columns df) \<Longrightarrow> columns (setitems fs cs df) = columns df"
proof -
  assume a: "set fs \<subseteq> set (columns df)"
  have "fst ` set (zip fs cs) \<subseteq> set fs"
    by (auto dest: set_zip_leftD)
  with a have "fst ` set (zip fs cs) \<subseteq> set (map fst df)" by (auto simp: columns_def)
  from fold_update_keys [OF this] show ?thesis
    by (simp add: columns_def setitems_updates AList.updates_def)
qed

lemma filter_update_other:
  "k \<in> S \<Longrightarrow> filter (\<lambda>p. fst p \<notin> S) (AList.update k v al) = filter (\<lambda>p. fst p \<notin> S) al"
  by (induction al) auto

lemma filter_fold_update_other:
  "fst ` set kvs \<subseteq> S \<Longrightarrow>
     filter (\<lambda>p. fst p \<notin> S) (fold (case_prod AList.update) kvs al) = filter (\<lambda>p. fst p \<notin> S) al"
  by (induction kvs arbitrary: al) (auto simp: filter_update_other)

lemma filter_setitems:
  "filter (\<lambda>p. fst p \<notin> set fs) (setitems fs cs df) = filter (\<lambda>p. fst p \<notin> set fs) df"
proof -
  have "fst ` set (zip fs cs) \<subseteq> set fs"
    by (auto dest: set_zip_leftD)
  from filter_fold_update_other [OF this] show ?thesis
    by (simp add: setitems_updates AList.updates_def)
qed

lemma map_upds_map_apply:
  "f \<in> set fs \<Longrightarrow> (m(fs [\<mapsto>] map h fs)) f = Some (h f)"
proof (induction fs arbitrary: m)
  case Nil
  then show ?case by simp
next
  case (Cons a fs)
  show ?case
  proof (cases "f \<in> set fs")
    case True
    from Cons.IH [OF True] show ?thesis by simp
  next
    case False
    with Cons.prems have "f = a" by simp
    with False show ?thesis by simp
  qed
qed

lemma map_of_setitems_feature:
  "f \<in> set fs \<Longrightarrow> map_of (setitems fs (map h (map g fs)) df) f = Some (h (g f))"
  using map_upds_map_apply [of f fs _ "h \<circ> g"] by (simp add: map_of_setitems)

lemma getitem_Inr:
  "getitem df fs = Inr cs \<Longrightarrow> set fs \<subseteq> set (columns df) \<and> cs = map (\<lambda>f. the (map_of df f)) fs"
  by (auto simp: getitem_def split: if_splits)

lemma handle_missing_values_Inr:
  "handle_missing_values self df lg = (lg', Inr df') \<Longrightarrow>
     set (features (config self)) \<subseteq> set (columns df) \<and>
     df' = setitems (features (config self))
             (map (\<lambda>c. fillna (col_mean c) c) (map (\<lambda>f. the (map_of df f)) (features (config self)))) df"
  by (auto simp: handle_missing_values_def Let_def dest!: getitem_Inr split: sum.splits if_splits)

lemma scale_features_Inr:
  "scale_features self df = Inr (self', df') \<Longrightarrow>
     set (features (config self)) \<subseteq> set (columns df) \<and>
     df' = setitems (features (config self))
             (map scale_column (map (\<lambda>f. the (map_of df f)) (features (config self)))) df"
  by (auto simp: scale_features_def Let_def dest!: getitem_Inr split: sum.splits option.splits)



lemma sum_list_centered: "sum_list (map (\<lambda>v. v - mean xs) xs) = 0" if "xs \<noteq> []" for xs :: "real list"
proof -
  have "sum_list (map (\<lambda>v. v - mean xs) xs) = sum_list xs - real (length xs) * mean xs"
    by (simp add: sum_list_subtractf sum_list_triv)
  also have "\<dots> = 0" using that by (simp add: mean_def)
  finally show ?thesis .
qed

lemma sum_list_divide:
  "sum_list (map (\<lambda>v. f v / s) xs) = sum_list (map f xs) / (s::real)"
  by (induction xs) (simp_all add: add_divide_distrib)

lemma mean_standardised:
  "xs \<noteq> [] \<Longrightarrow> mean (map (\<lambda>v. (v - mean xs) / s) xs) = 0"
proof -
  assume a: "xs \<noteq> []"
  have "sum_list (map (\<lambda>v. (v - mean xs) / s) xs) = sum_list (map (\<lambda>v. v - mean xs) xs) / s"
    by (rule sum_list_divide)
  with sum_list_centered [OF a] show ?thesis by (simp add: mean_def)
qed

lemma present_transform:
  "present (map (transform_cell (Some (m, s))) c) = map (\<lambda>v. (v - m) / s) (present c)"
proof (induction c)
  case Nil
  then show ?case by simp
next
  case (Cons x c)
  then show ?case by (cases x) simp_all
qed

lemma sum_sq_nonneg: "0 \<le> (\<Sum>x\<leftarrow>xs. (x - m)\<^sup>2)" for m :: real
  by (induction xs) simp_all

lemma sum_sq_all_eq: "set xs \<subseteq> {m} \<Longrightarrow> (\<Sum>x\<leftarrow>xs. (x - m)\<^sup>2) = 0" for m :: real
  by (induction xs) simp_all

lemma variance_nonneg: "0 \<le> variance xs"
  by (simp add: variance_def sum_sq_nonneg)

lemma variance_standardised:
  assumes "xs \<noteq> []"
  shows "variance (map (\<lambda>v. (v - mean xs) / s) xs) = variance xs / s\<^sup>2"
proof -
  have "sum_list (map (\<lambda>v. ((v - mean xs) / s)\<^sup>2) xs)
          = sum_list (map (\<lambda>v. (v - mean xs)\<^sup>2 / s\<^sup>2) xs)"
    by (simp add: power_divide)
  also have "\<dots> = sum_list (map (\<lambda>v. (v - mean xs)\<^sup>2) xs) / s\<^sup>2"
    by (rule sum_list_divide)
  finally show ?thesis
    using mean_standardised [OF assms, of s]
    by (simp add: variance_def comp_def)
qed

lemma mean_constant:
  assumes "xs \<noteq> []" and "set xs \<subseteq> {v}"
  shows "mean xs = v"
proof -
  from assms(2) have "sum_list xs = real (length xs) * v"
    by (induction xs) (simp_all add: algebra_simps)
  with assms(1) show ?thesis by (simp add: mean_def)
qed

lemma std_constant:
  assumes "xs \<noteq> []" and "set xs \<subseteq> {v}"
  shows "std xs = 0"
proof -
  from assms(2) mean_constant [OF assms] have "set xs \<subseteq> {mean xs}" by simp
  from sum_sq_all_eq [OF this] show ?thesis by (simp add: std_def variance_def)
qed

lemma std_standardised:
  assumes "xs \<noteq> []" and "std xs \<noteq> 0"
  shows "std (map (\<lambda>v. (v - mean xs) / std xs) xs) = 1"
proof -
  have "(std xs)\<^sup>2 = variance xs"
    by (simp add: std_def variance_nonneg)
  moreover from assms(2) have "variance xs \<noteq> 0" by (auto simp: std_def)
  ultimately show ?thesis
    using variance_standardised [OF assms(1), of "std xs"] by (simp add: std_def [of "map _ _"])
qed

lemma Num_in_present: "Num x \<in> set c \<Longrightarrow> x \<in> set (present c)"
proof (induction c)
  case Nil
  then show ?case by simp
next
  case (Cons y c)
  then show ?case by (cases y) auto
qed

lemma is_constant_feature_zero: "is_constant_feature 0 m n"
  by (simp add: is_constant_feature_def)

lemma is_constant_feature_std:
  assumes "\<not> is_constant_feature (variance xs) (mean xs) (length xs)"
  shows "xs \<noteq> []" and "std xs \<noteq> 0"
proof -
  show "xs \<noteq> []"
  proof
    assume "xs = []"
    then have "variance xs = 0" by (simp add: variance_def)
    with assms is_constant_feature_zero show False by simp
  qed
  show "std xs \<noteq> 0"
  proof
    assume "std xs = 0"
    then have "variance xs = 0" by (simp add: std_def)
    with assms is_constant_feature_zero show False by simp
  qed
qed

lemma scale_column_constant:
  assumes "\<not> list_ex is_Str c" and "set (present c) \<subseteq> {v}"
  shows "scale_column c = map (\<lambda>x. if isnull x then NaN else Num 0) c"
proof (cases "present c = []")
  case True
  have "\<And>x. x \<in> set c \<Longrightarrow> x = NaN"
  proof -
    fix x assume x: "x \<in> set c"
    with assms(1) have "\<not> is_Str x" by (auto simp: list_ex_iff)
    moreover from x True have "\<And>r. x \<noteq> Num r" using Num_in_present by fastforce
    ultimately show "x = NaN" by (cases x) auto
  qed
  then have "map (transform_cell None) c = map (\<lambda>x. if isnull x then NaN else Num 0) c"
    by (intro map_cong refl) fastforce
  with True show ?thesis by (simp add: scale_column_def column_stats_def)
next
  case False
  from std_constant [OF False assms(2)] have "variance (present c) = 0" by (simp add: std_def)
  with mean_constant [OF False assms(2)] False
  have st: "column_stats c = Some (v, 1)" by (simp add: column_stats_def is_constant_feature_zero)
  have "transform_cell (Some (v, 1)) x = (if isnull x then NaN else Num 0)" if "x \<in> set c" for x
  proof (cases x)
    case (Num r)
    with that have "r \<in> set (present c)" by (simp add: Num_in_present)
    with assms(2) Num show ?thesis by auto
  next
    case NaN
    then show ?thesis by simp
  next
    case (Str t)
    with that assms(1) show ?thesis by (auto simp: list_ex_iff)
  qed
  with st show ?thesis by (simp add: scale_column_def)
qed

lemma scale_column_standardised:
  assumes "\<not> is_constant_feature (variance (present c)) (mean (present c)) (length (present c))"
  shows "mean (present (scale_column c)) = 0 \<and> std (present (scale_column c)) = 1"
proof -
  note ne = is_constant_feature_std(1) [OF assms] and nz = is_constant_feature_std(2) [OF assms]
  from ne assms have "column_stats c = Some (mean (present c), std (present c))"
    by (simp add: column_stats_def)
  then have "present (scale_column c)
               = map (\<lambda>v. (v - mean (present c)) / std (present c)) (present c)"
    by (simp add: scale_column_def present_transform)
  with mean_standardised [OF ne] std_standardised [OF ne nz] show ?thesis by simp
qed

lemma scale_column_centred:
  assumes "is_constant_feature (variance (present c)) (mean (present c)) (length (present c))"
  shows "present c \<noteq> [] \<longrightarrow> mean (present (scale_column c)) = 0"
    and "std (present (scale_column c)) = std (present c)"
proof -
  have p: "present (scale_column c) = map (\<lambda>v. (v - mean (present c)) / 1) (present c)"
  proof (cases "present c = []")
    case True
    have "present (map (transform_cell None) c) = []"
      using True by (induction c rule: present.induct) simp_all
    with True show ?thesis by (simp add: scale_column_def column_stats_def)
  next
    case False
    with assms have "column_stats c = Some (mean (present c), 1)"
      by (simp add: column_stats_def)
    then show ?thesis by (simp only: scale_column_def present_transform)
  qed
  show "present c \<noteq> [] \<longrightarrow> mean (present (scale_column c)) = 0"
    unfolding p using mean_standardised [of "present c" 1] by blast
  show "std (present (scale_column c)) = std (present c)"
  proof (cases "present c = []")
    case True
    with p show ?thesis by simp
  next
    case False
    from variance_standardised [OF False, of 1] show ?thesis
      unfolding p std_def by simp
  qed
qed

lemma scale_features_success:
  assumes "set (features (config self)) \<subseteq> set (columns df)"
    and "features (config self) \<noteq> []"
    and "list_all (\<lambda>f. \<not> list_ex is_Str (the (map_of df f))) (features (config self))"
    and "list_ex (\<lambda>f. the (map_of df f) \<noteq> []) (features (config self))"
  shows "scale_features self df =
           Inr (self\<lparr>scaler := Some (map column_stats (map (\<lambda>f. the (map_of df f)) (features (config self))))\<rparr>,
                setitems (features (config self))
                  (map scale_column (map (\<lambda>f. the (map_of df f)) (features (config self)))) df)"
proof -
  let ?fs = "features (config self)"
  let ?cs = "map (\<lambda>f. the (map_of df f)) ?fs"
  have g: "getitem df ?fs = Inr ?cs" using assms(1) by (simp add: getitem_def)
  have s: "\<not> list_ex (list_ex is_Str) ?cs" using assms(3) by (simp add: list_ex_iff list_all_iff)
  have n: "?cs \<noteq> []" using assms(2) by simp
  from assms(4) have "\<exists>c \<in> set ?cs. c \<noteq> []" by (auto simp: list_ex_iff)
  then have t: "transpose ?cs \<noteq> []" by (simp add: transpose_empty)
  from s n t have "check_scaler_input ?cs = None" by (simp add: check_scaler_input_def)
  with g show ?thesis by (simp add: scale_features_def Let_def)
qed

section \<open>Preprocessing\<close>

text \<open>
  Claim C9: missing-value handling and feature scaling, when they succeed, keep the
  column names and their order, and leave every column that is not a configured feature
  exactly as it was (protocol, ports, timestamp and any other column).
\<close>

theorem preprocessing_keeps_other_columns:
  "(handle_missing_values self df lg = (lg', Inr df1) \<longrightarrow>
      columns df1 = columns df \<and>
      filter (\<lambda>p. fst p \<notin> set (features (config self))) df1
        = filter (\<lambda>p. fst p \<notin> set (features (config self))) df)
   \<and> (scale_features self df = Inr (self', df2) \<longrightarrow>
      columns df2 = columns df \<and>
      filter (\<lambda>p. fst p \<notin> set (features (config self))) df2
        = filter (\<lambda>p. fst p \<notin> set (features (config self))) df)"
proof (intro conjI impI)
  assume "handle_missing_values self df lg = (lg', Inr df1)"
  from handle_missing_values_Inr [OF this]
  show "columns df1 = columns df"
    and "filter (\<lambda>p. fst p \<notin> set (features (config self))) df1
        = filter (\<lambda>p. fst p \<notin> set (features (config self))) df"
    by (simp_all add: columns_setitems filter_setitems)
next
  assume "scale_features self df = Inr (self', df2)"
  from scale_features_Inr [OF this]
  show "columns df2 = columns df"
    and "filter (\<lambda>p. fst p \<notin> set (features (config self))) df2
        = filter (\<lambda>p. fst p \<notin> set (features (config self))) df"
    by (simp_all add: columns_setitems filter_setitems)
qed

theorem preprocessing_keeps_other_columns_witness:
  "handle_missing_values det_ab df_ab [] =
     ([Warning_missing_values [(''a'', 1), (''b'', 0)]],
      Inr [(''a'', [Num 1, Num 2, Num 3]), (''protocol'', [Str ''TCP'', Str ''UDP'', Str ''TCP'']),
           (''b'', [Num 5, Num 5, Num 5])])
   \<and> scale_features det_ab df_ab =
     Inr (det_ab\<lparr>scaler := Some [Some (2, 1), Some (5, 1)]\<rparr>,
          [(''a'', [Num (- 1), NaN, Num 1]), (''protocol'', [Str ''TCP'', Str ''UDP'', Str ''TCP'']),
           (''b'', [Num 0, Num 0, Num 0])])
   \<and> filter (\<lambda>p. fst p \<notin> set (features (config det_ab)))
        [(''a'', [Num 1, Num 2, Num 3]), (''protocol'', [Str ''TCP'', Str ''UDP'', Str ''TCP'']),
         (''b'', [Num 5, Num 5, Num 5])]
      = filter (\<lambda>p. fst p \<notin> set (features (config det_ab))) df_ab
   \<and> filter (\<lambda>p. fst p \<notin> set (features (config det_ab)))
        [(''a'', [Num (- 1), NaN, Num 1]), (''protocol'', [Str ''TCP'', Str ''UDP'', Str ''TCP'']),
         (''b'', [Num 0, Num 0, Num 0])]
      = filter (\<lambda>p. fst p \<notin> set (features (config det_ab))) df_ab"
proof -
  have h1: "handle_missing_values det_ab df_ab [] =
     ([Warning_missing_values [(''a'', 1), (''b'', 0)]],
      Inr [(''a'', [Num 1, Num 2, Num 3]), (''protocol'', [Str ''TCP'', Str ''UDP'', Str ''TCP'']),
           (''b'', [Num 5, Num 5, Num 5])])"
    by (simp add: handle_missing_values_def det_ab_def cfg_ab_def df_ab_def getitem_def columns_def
        setitems_def setitem_def isnull_sum_def fillna_def col_mean_def mean_def Let_def)
  have h2: "scale_features det_ab df_ab =
     Inr (det_ab\<lparr>scaler := Some [Some (2, 1), Some (5, 1)]\<rparr>,
          [(''a'', [Num (- 1), NaN, Num 1]), (''protocol'', [Str ''TCP'', Str ''UDP'', Str ''TCP'']),
           (''b'', [Num 0, Num 0, Num 0])])"
    by (simp add: scale_features_def det_ab_def cfg_ab_def df_ab_def getitem_def columns_def
        setitems_def setitem_def check_scaler_input_def scale_column_def column_stats_def
        is_constant_feature_def eps_def power2_eq_square std_def variance_def mean_def Let_def)
  from preprocessing_keeps_other_columns [of det_ab df_ab "[]"] h1 h2 show ?thesis by blast
qed




text \<open>
  Claim C7, as stated, fails for a column that is not constant but whose variance is within
  the scaler's tolerance for its mean: the scaler takes it for constant and only centres
  it. The values \<open>10\<^sup>1\<^sup>6\<close> and \<open>10\<^sup>1\<^sup>6 + 4\<close> become \<open>-2\<close> and \<open>2\<close>: neither all zeros nor of
  standard deviation 1.
\<close>

theorem scale_features_near_constant_counterexample:
  "map_of df_near ''a'' = Some [Num (10 ^ 16), Num (10 ^ 16 + 4)]
   \<and> scale_features det_ab df_near =
       Inr (det_ab\<lparr>scaler := Some [Some (10 ^ 16 + 2, 1), Some (1, 1)]\<rparr>,
            [(''a'', [Num (- 2), Num 2]), (''b'', [Num (- 1), Num 1])])
   \<and> std (present [Num (- 2), Num 2]) = 2"
  by (simp add: scale_features_def det_ab_def cfg_ab_def df_near_def getitem_def columns_def
      setitems_def setitem_def check_scaler_input_def scale_column_def column_stats_def
      is_constant_feature_def eps_def power2_eq_square std_def variance_def mean_def Let_def)

text \<open>
  Claim C7, amended: on a table with at least one record whose configured features,
  distinct and at least one, are numeric columns, feature scaling succeeds; no column makes it fail by a
  division by zero. Afterwards every configured feature with a present value has mean 0.
  A feature whose variance exceeds the scaler's tolerance for a constant feature has
  standard deviation 1. A feature within the tolerance is only centred and keeps its
  standard deviation; among these, a column whose present values are all equal has each of
  them mapped to 0. Missing values stay missing.
\<close>

theorem scale_features_standardises:
  assumes "set (features (config self)) \<subseteq> set (columns df)"
    and "features (config self) \<noteq> []"
    and "distinct (features (config self))"
    and "list_all (\<lambda>f. \<not> list_ex is_Str (the (map_of df f))) (features (config self))"
    and "list_ex (\<lambda>f. the (map_of df f) \<noteq> []) (features (config self))"
  shows "\<exists>self' df'. scale_features self df = Inr (self', df')
     \<and> list_all (\<lambda>f.
           (present (the (map_of df f)) \<noteq> [] \<longrightarrow> mean (present (the (map_of df' f))) = 0)
         \<and> (if is_constant_feature (variance (present (the (map_of df f))))
                 (mean (present (the (map_of df f)))) (length (present (the (map_of df f))))
            then std (present (the (map_of df' f))) = std (present (the (map_of df f)))
            else std (present (the (map_of df' f))) = 1)
         \<and> ((\<exists>v. set (present (the (map_of df f))) \<subseteq> {v}) \<longrightarrow>
              the (map_of df' f) = map (\<lambda>x. if isnull x then NaN else Num 0) (the (map_of df f))))
         (features (config self))"
proof -
  let ?fs = "features (config self)"
  let ?cs = "map (\<lambda>f. the (map_of df f)) ?fs"
  let ?df' = "setitems ?fs (map scale_column ?cs) df"
  note r = scale_features_success [OF assms(1,2,4,5)]
  have "(present (the (map_of df f)) \<noteq> [] \<longrightarrow> mean (present (the (map_of ?df' f))) = 0)
         \<and> (if is_constant_feature (variance (present (the (map_of df f))))
                 (mean (present (the (map_of df f)))) (length (present (the (map_of df f))))
            then std (present (the (map_of ?df' f))) = std (present (the (map_of df f)))
            else std (present (the (map_of ?df' f))) = 1)
         \<and> ((\<exists>v. set (present (the (map_of df f))) \<subseteq> {v}) \<longrightarrow>
              the (map_of ?df' f) = map (\<lambda>x. if isnull x then NaN else Num 0) (the (map_of df f)))"
    if f: "f \<in> set ?fs" for f
  proof -
    let ?c = "the (map_of df f)"
    have m: "the (map_of ?df' f) = scale_column ?c"
      using map_of_setitems_feature [OF f, of scale_column "\<lambda>f. the (map_of df f)" df] by simp
    from f assms(4) have ns: "\<not> list_ex is_Str ?c" by (simp add: list_all_iff)
    have a: "present ?c \<noteq> [] \<longrightarrow> mean (present (scale_column ?c)) = 0"
      using scale_column_centred(1) [of ?c] scale_column_standardised [of ?c] by blast
    have b: "if is_constant_feature (variance (present ?c)) (mean (present ?c)) (length (present ?c))
            then std (present (scale_column ?c)) = std (present ?c)
            else std (present (scale_column ?c)) = 1"
      using scale_column_centred(2) [of ?c] scale_column_standardised [of ?c] by simp
    have c: "(\<exists>v. set (present ?c) \<subseteq> {v}) \<longrightarrow>
              scale_column ?c = map (\<lambda>x. if isnull x then NaN else Num 0) ?c"
      using scale_column_constant [OF ns] by blast
    from a b c show ?thesis unfolding m by blast
  qed
  then show ?thesis unfolding list_all_iff using r by blast
qed

theorem scale_features_standardises_witness:
  "set (features (config det_ab)) \<subseteq> set (columns df_ab)
   \<and> features (config det_ab) \<noteq> []
   \<and> distinct (features (config det_ab))
   \<and> list_all (\<lambda>f. \<not> list_ex is_Str (the (map_of df_ab f))) (features (config det_ab))
   \<and> list_ex (\<lambda>f. the (map_of df_ab f) \<noteq> []) (features (config det_ab))
   \<and> scale_features det_ab df_ab =
       Inr (det_ab\<lparr>scaler := Some [Some (2, 1), Some (5, 1)]\<rparr>,
            [(''a'', [Num (- 1), NaN, Num 1]), (''protocol'', [Str ''TCP'', Str ''UDP'', Str ''TCP'']),
             (''b'', [Num 0, Num 0, Num 0])])
   \<and> mean (present [Num (- 1), NaN, Num 1]) = 0 \<and> std (present [Num (- 1), NaN, Num 1]) = 1"
proof -
  have h1: "set (features (config det_ab)) \<subseteq> set (columns df_ab)"
    by (simp add: det_ab_def cfg_ab_def df_ab_def columns_def)
  have h2: "features (config det_ab) \<noteq> []" by (simp add: det_ab_def cfg_ab_def)
  have hd: "distinct (features (config det_ab))" by (simp add: det_ab_def cfg_ab_def)
  have h3: "list_all (\<lambda>f. \<not> list_ex is_Str (the (map_of df_ab f))) (features (config det_ab))"
    by (simp add: det_ab_def cfg_ab_def df_ab_def)
  have h4: "list_ex (\<lambda>f. the (map_of df_ab f) \<noteq> []) (features (config det_ab))"
    by (simp add: det_ab_def cfg_ab_def df_ab_def)
  have h: "scale_features det_ab df_ab =
     Inr (det_ab\<lparr>scaler := Some [Some (2, 1), Some (5, 1)]\<rparr>,
          [(''a'', [Num (- 1), NaN, Num 1]), (''protocol'', [Str ''TCP'', Str ''UDP'', Str ''TCP'']),
           (''b'', [Num 0, Num 0, Num 0])])"
    by (simp add: scale_features_def det_ab_def cfg_ab_def df_ab_def getitem_def columns_def
        setitems_def setitem_def check_scaler_input_def scale_column_def column_stats_def
        is_constant_feature_def eps_def power2_eq_square std_def variance_def mean_def Let_def)
  have n: "\<not> is_constant_feature (variance (present (the (map_of df_ab ''a''))))
             (mean (present (the (map_of df_ab ''a'')))) (length (present (the (map_of df_ab ''a''))))"
    by (simp add: df_ab_def is_constant_feature_def eps_def power2_eq_square variance_def mean_def)
  have p: "present (the (map_of df_ab ''a'')) \<noteq> []" by (simp add: df_ab_def)
  have f: "''a'' \<in> set (features (config det_ab))" by (simp add: det_ab_def cfg_ab_def)
  from scale_features_standardises [OF h1 h2 hd h3 h4] h f n p
  have "mean (present [Num (- 1), NaN, Num 1]) = 0 \<and> std (present [Num (- 1), NaN, Num 1]) = 1"
    by (auto simp: list_all_iff)
  with h1 h2 hd h3 h4 h show ?thesis by blast
qed

section \<open>Thresholding and detection\<close>





lemma check_array_Inr:
  assumes "check_array cs = Inr X"
  shows "X = map (map the_num) (transpose cs)" and "X \<noteq> []"
    and "\<not> list_ex (list_ex is_Str) cs"
  using assms by (auto simp: check_array_def split: if_splits)

lemma score_samples_fit:
  "score_samples sc (fit sc src cfg X) Y = map (sc src (n_estimators cfg) X) Y"
  by (simp add: score_samples_def fit_def Let_def)

lemma offset_fit:
  "offset (fit sc src cfg X)
     = percentile (map (sc src (n_estimators cfg) X) X) (100 * contamination cfg)"
  by (simp add: score_samples_def fit_def Let_def)

lemma length_predict: "length (predict sc m X) = length X"
  by (simp add: predict_def score_samples_def)

lemma map_label_predict:
  "p \<in> set (predict sc m X) \<Longrightarrow> map_label p = Str ''Normal'' \<or> map_label p = Str ''Anomaly''"
  by (auto simp: predict_def map_label_def)

lemma columns_setitem:
  "columns (setitem k v df) = (if k \<in> set (columns df) then columns df else columns df @ [k])"
  by (simp add: columns_def setitem_def update_keys)

lemma map_of_setitem:
  "map_of (setitem k v df) k' = (if k' = k then Some v else map_of df k')"
  by (simp add: setitem_def update_conv')

lemma getitem_setitem_other:
  assumes "k \<notin> set fs"
  shows "getitem (setitem k v df) fs = getitem df fs"
proof -
  from assms have s: "set fs \<subseteq> set (columns (setitem k v df)) \<longleftrightarrow> set fs \<subseteq> set (columns df)"
    by (auto simp: columns_setitem)
  from assms have m: "map (\<lambda>f. the (map_of (setitem k v df) f)) fs = map (\<lambda>f. the (map_of df f)) fs"
    by (auto simp: map_of_setitem)
  from assms have f: "filter (\<lambda>f. f \<notin> set (columns (setitem k v df))) fs
                        = filter (\<lambda>f. f \<notin> set (columns df)) fs"
    by (intro filter_cong refl) (auto simp: columns_setitem)
  show ?thesis unfolding getitem_def s m f ..
qed

lemma getitem_setitem_in:
  assumes "k \<in> set fs" and "getitem (setitem k v df) fs = Inr cs"
  shows "v \<in> set cs"
proof -
  from getitem_Inr [OF assms(2)] have "cs = map (\<lambda>f. the (map_of (setitem k v df) f)) fs" by simp
  moreover have "the (map_of (setitem k v df) k) = v" by (simp add: map_of_setitem)
  ultimately show ?thesis using assms(1) by force
qed

lemma detect_anomalies_Inr:
  assumes "detect_anomalies sc g self df lg = (lg', Inr (self', df'))"
  shows "\<exists>X. getitem df (features (config self)) = Inr (map (\<lambda>f. the (map_of df f)) (features (config self)))
           \<and> valid_parameters (config self)
           \<and> check_array (map (\<lambda>f. the (map_of df f)) (features (config self))) = Inr X
           \<and> ''anomaly'' \<notin> set (features (config self))
           \<and> self' = self\<lparr>model := Some (fit sc (check_random_state (random_state (config self)) g) (config self) X)\<rparr>
           \<and> df' = setitem ''anomaly_score''
                     (map Num (score_samples sc (fit sc (check_random_state (random_state (config self)) g) (config self) X) X))
                     (setitem ''anomaly''
                        (map map_label (predict sc (fit sc (check_random_state (random_state (config self)) g) (config self) X) X))
                        df)"
proof -
  let ?cfg = "config self"
  let ?fs = "features ?cfg"
  let ?cs = "map (\<lambda>f. the (map_of df f)) ?fs"
  from assms obtain cs where g0: "getitem df ?fs = Inr cs"
    by (auto simp: detect_anomalies_def Let_def split: sum.splits)
  with getitem_Inr [OF g0] have g: "getitem df ?fs = Inr ?cs" by simp
  from assms g have vp: "valid_parameters ?cfg"
    by (auto simp: detect_anomalies_def Let_def split: sum.splits if_splits)
  from assms g vp obtain X where ca: "check_array ?cs = Inr X"
    by (auto simp: detect_anomalies_def Let_def split: sum.splits)
  let ?m = "fit sc (check_random_state (random_state ?cfg) g) ?cfg X"
  let ?labels = "map map_label (predict sc ?m X)"
  let ?df1 = "setitem ''anomaly'' ?labels df"
  from assms g vp ca obtain cs1 where g1: "getitem ?df1 ?fs = Inr cs1"
    by (auto simp: detect_anomalies_def Let_def split: sum.splits)
  from assms g vp ca g1 obtain X1 where ca1: "check_array cs1 = Inr X1"
    by (auto simp: detect_anomalies_def Let_def split: sum.splits)
  from assms g vp ca g1 ca1
  have r: "self' = self\<lparr>model := Some ?m\<rparr>"
       "df' = setitem ''anomaly_score'' (map Num (score_samples sc ?m X1)) ?df1"
    by (auto simp: detect_anomalies_def Let_def)
  have nf: "''anomaly'' \<notin> set ?fs"
  proof
    assume "''anomaly'' \<in> set ?fs"
    from getitem_setitem_in [OF this g1] have in1: "?labels \<in> set cs1" .
    from check_array_Inr(2) [OF ca] have "predict sc ?m X \<noteq> []"
      using length_predict [of sc ?m X] by auto
    then obtain p where p: "p \<in> set (predict sc ?m X)" by (cases "predict sc ?m X") auto
    from map_label_predict [OF p] have "is_Str (map_label p)" by auto
    with p have "\<exists>x \<in> set ?labels. is_Str x" by auto
    with in1 have "\<exists>c \<in> set cs1. \<exists>x \<in> set c. is_Str x" by blast
    then have "list_ex (list_ex is_Str) cs1" by (simp add: list_ex_iff)
    with check_array_Inr(3) [OF ca1] show False by simp
  qed
  from getitem_setitem_other [OF nf] g g1 have "cs1 = ?cs" by simp
  with ca ca1 have "X1 = X" by simp
  with g vp ca nf r show ?thesis by blast
qed

lemmas detect_eval = detect_anomalies_def getitem_def columns_def setitem_def check_array_def
  valid_parameters_def fit_def predict_def score_samples_def percentile_def map_label_def
  count_label_def check_random_state_def norm_scorer_def flat_scorer_def det_ab_def cfg_ab_def
  Let_def



lemma detect_anomalies_config_only:
  assumes "random_state (config self1) = Some s" and "config self2 = config self1"
  shows "map_sum id snd (snd (detect_anomalies sc g1 self1 df lg1))
           = map_sum id snd (snd (detect_anomalies sc g2 self2 df lg2))"
  using assms
  by (auto simp: detect_anomalies_def Let_def check_random_state_def split: sum.splits)

lemma handle_missing_values_config_only:
  assumes "config self2 = config self1"
  shows "snd (handle_missing_values self1 df lg1) = snd (handle_missing_values self2 df lg2)"
  using assms by (auto simp: handle_missing_values_def Let_def split: sum.splits)

lemma scale_features_config_only:
  assumes "config self2 = config self1"
  shows "map_sum id snd (scale_features self1 df) = map_sum id snd (scale_features self2 df)"
  using assms by (auto simp: scale_features_def Let_def split: sum.splits option.splits)

lemma load_and_preprocess_data_config_only:
  assumes "config self2 = config self1"
  shows "map_sum id snd (snd (load_and_preprocess_data read_csv self1 p lg1))
           = map_sum id snd (snd (load_and_preprocess_data read_csv self2 p lg2))"
proof (cases "read_csv p")
  case (Inl e)
  then show ?thesis by (simp add: load_and_preprocess_data_def)
next
  case (Inr df)
  have v: "validate_data self1 df = validate_data self2 df"
    using assms by (simp add: validate_data_def)
  show ?thesis
  proof (cases "validate_data self2 df")
    case (Inl e)
    with Inr v show ?thesis by (simp add: load_and_preprocess_data_def Let_def)
  next
    case ok: (Inr u)
    obtain l1 r1 where h1: "handle_missing_values self1 df (lg1 @ [Info_loaded p]) = (l1, r1)"
      by (cases "handle_missing_values self1 df (lg1 @ [Info_loaded p])")
    obtain l2 r2 where h2: "handle_missing_values self2 df (lg2 @ [Info_loaded p]) = (l2, r2)"
      by (cases "handle_missing_values self2 df (lg2 @ [Info_loaded p])")
    from handle_missing_values_config_only [OF assms, of df "lg1 @ [Info_loaded p]" "lg2 @ [Info_loaded p]"]
      h1 h2 have r: "r1 = r2" by simp
    show ?thesis
    proof (cases r2)
      case (Inl e)
      with Inr v ok h1 h2 r show ?thesis by (simp add: load_and_preprocess_data_def Let_def)
    next
      case df2: (Inr d)
      from scale_features_config_only [OF assms, of d]
      show ?thesis using Inr v ok h1 h2 r df2
        by (auto simp: load_and_preprocess_data_def Let_def split: sum.splits)
    qed
  qed
qed

lemma detect_anomalies_success:
  assumes "set (features (config self)) \<subseteq> set (columns df)"
    and "valid_parameters (config self)"
    and "check_array (map (\<lambda>f. the (map_of df f)) (features (config self))) = Inr X"
    and "''anomaly'' \<notin> set (features (config self))"
  shows "\<exists>lg' self'. detect_anomalies sc g self df lg =
           (lg', Inr (self',
              setitem ''anomaly_score''
                (map Num (score_samples sc (fit sc (check_random_state (random_state (config self)) g) (config self) X) X))
                (setitem ''anomaly''
                   (map map_label (predict sc (fit sc (check_random_state (random_state (config self)) g) (config self) X) X))
                   df)))"
proof -
  from assms(1) have g: "getitem df (features (config self))
                           = Inr (map (\<lambda>f. the (map_of df f)) (features (config self)))"
    by (simp add: getitem_def)
  from getitem_setitem_other [OF assms(4)] g
  have g1: "getitem (setitem ''anomaly'' v df) (features (config self))
              = Inr (map (\<lambda>f. the (map_of df f)) (features (config self)))" for v
    by simp
  show ?thesis
    by (simp add: detect_anomalies_def Let_def g g1 assms(2,3))
qed

lemma check_array_no_rows:
  assumes "cs \<noteq> []" and "\<forall>c \<in> set cs. c = []"
  shows "check_array cs = Inl NoSamples"
proof -
  from assms(2) have "\<not> list_ex (list_ex is_Str) cs" "\<not> list_ex (list_ex isnull) cs"
    by (auto simp: list_ex_iff)
  moreover from assms(2) have "transpose cs = []" by (simp add: transpose_empty)
  ultimately show ?thesis using assms(1) by (simp add: check_array_def)
qed

lemma check_array_complete:
  assumes "cs \<noteq> []" and "\<forall>c \<in> set cs. \<forall>x \<in> set c. \<not> is_Str x \<and> \<not> isnull x"
    and "\<exists>c \<in> set cs. c \<noteq> []"
  shows "check_array cs = Inr (map (map the_num) (transpose cs))"
proof -
  from assms(2) have "\<not> list_ex (list_ex is_Str) cs" "\<not> list_ex (list_ex isnull) cs"
    by (auto simp: list_ex_iff)
  moreover from assms(3) have "transpose cs \<noteq> []" by (simp add: transpose_empty)
  ultimately show ?thesis using assms(1) by (simp add: check_array_def)
qed

lemma length_transpose_one:
  "cs \<noteq> [] \<Longrightarrow> \<forall>c \<in> set cs. length c = 1 \<Longrightarrow> length (transpose cs) = 1"
proof (induction cs)
  case Nil
  then show ?case by simp
next
  case (Cons c cs)
  show ?case
  proof (cases "cs = []")
    case True
    with Cons.prems show ?thesis by (simp add: length_transpose)
  next
    case False
    with Cons have "length (transpose cs) = 1" by simp
    with Cons.prems show ?thesis by (simp add: length_transpose)
  qed
qed

lemma percentile_single: "percentile [s] q = s"
  by (simp add: percentile_def Let_def)

lemma predict_single:
  "map map_label (predict sc (fit sc src cfg [r]) [r]) = [Str ''Normal'']"
  by (simp add: predict_def score_samples_fit offset_fit percentile_single map_label_def)

lemma setitem_triv: "map_of df k = Some v \<Longrightarrow> setitem k v df = df"
  by (simp add: setitem_def update_triv)

lemma detect_anomalies_rerun:
  assumes r: "detect_anomalies sc g1 self df lg = (lg', Inr (self', df'))"
    and s: "random_state (config self) = Some s"
    and ns: "''anomaly_score'' \<notin> set (features (config self))"
  shows "map_sum id snd (snd (detect_anomalies sc g2 self' df' lg2)) = Inr df'"
proof -
  let ?fs = "features (config self)"
  let ?cs = "map (\<lambda>f. the (map_of df f)) ?fs"
  from detect_anomalies_Inr [OF r] obtain X where
    g: "getitem df ?fs = Inr ?cs"
    and vp: "valid_parameters (config self)"
    and ca: "check_array ?cs = Inr X"
    and na: "''anomaly'' \<notin> set ?fs"
    and self': "self' = self\<lparr>model := Some (fit sc (check_random_state (random_state (config self)) g1) (config self) X)\<rparr>"
    and df': "df' = setitem ''anomaly_score''
                     (map Num (score_samples sc (fit sc (check_random_state (random_state (config self)) g1) (config self) X) X))
                     (setitem ''anomaly''
                        (map map_label (predict sc (fit sc (check_random_state (random_state (config self)) g1) (config self) X) X))
                        df)"
    by blast
  let ?m = "fit sc (Seeded s) (config self) X"
  let ?S = "map Num (score_samples sc ?m X)"
  let ?L = "map map_label (predict sc ?m X)"
  from s have src: "check_random_state (random_state (config self)) g = Seeded s" for g
    by (simp add: check_random_state_def)
  from df' have d: "df' = setitem ''anomaly_score'' ?S (setitem ''anomaly'' ?L df)"
    by (simp only: src)
  from self' have c: "config self' = config self" by simp
  have "getitem df' ?fs = getitem df ?fs"
    unfolding d by (simp only: getitem_setitem_other [OF ns] getitem_setitem_other [OF na])
  with g have g': "getitem df' ?fs = Inr ?cs" by simp
  from getitem_Inr [OF g'] have sub: "set ?fs \<subseteq> set (columns df')"
    and cs: "map (\<lambda>f. the (map_of df' f)) ?fs = ?cs" by simp_all
  have sub': "set (features (config self')) \<subseteq> set (columns df')" using sub c by simp
  have vp': "valid_parameters (config self')" using vp c by simp
  have ca': "check_array (map (\<lambda>f. the (map_of df' f)) (features (config self'))) = Inr X"
    unfolding c cs by (rule ca)
  have na': "''anomaly'' \<notin> set (features (config self'))" using na c by simp
  from detect_anomalies_success [OF sub' vp' ca' na', of sc g2 lg2]
  obtain lg'' self'' where
    "detect_anomalies sc g2 self' df' lg2 =
       (lg'', Inr (self'', setitem ''anomaly_score'' ?S (setitem ''anomaly'' ?L df')))"
    unfolding c src by blast
  moreover have "map_of df' ''anomaly'' = Some ?L"
    unfolding d by (simp add: map_of_setitem)
  then have "setitem ''anomaly'' ?L df' = df'" by (rule setitem_triv)
  moreover have "map_of df' ''anomaly_score'' = Some ?S"
    unfolding d by (simp add: map_of_setitem)
  then have "setitem ''anomaly_score'' ?S df' = df'" by (rule setitem_triv)
  ultimately show ?thesis by simp
qed

text \<open>
  Without a seed the forest draws from the global generator, and two runs that find it in
  different states can label the same table differently.
\<close>

lemma detect_anomalies_unseeded:
  "map_sum id snd (snd (detect_anomalies parity_scorer 0 det_none df_three [])) =
     Inr [(''a'', [Num 0, Num 1, Num 3]), (''b'', [Num 0, Num 0, Num 0]),
          (''anomaly'', [Str ''Normal'', Str ''Normal'', Str ''Anomaly'']),
          (''anomaly_score'', [Num 0, Num (- 1), Num (- 3)])]
   \<and> map_sum id snd (snd (detect_anomalies parity_scorer 1 det_none df_three [])) =
     Inr [(''a'', [Num 0, Num 1, Num 3]), (''b'', [Num 0, Num 0, Num 0]),
          (''anomaly'', [Str ''Anomaly'', Str ''Normal'', Str ''Normal'']),
          (''anomaly_score'', [Num 0, Num 1, Num 3])]"
  by (simp add: detect_eval parity_scorer_def det_none_def df_three_def)

section \<open>Anomaly detection\<close>




text \<open>
  Claim C2: with an integer \<open>random_state\<close>, detection gives the same error or the same
  table (scores and labels included) whatever the state of numpy's global generator, the
  log, and the scaler and model left in the detector by earlier runs. On a table it accepts
  (configured features, distinct, at least one and none named \<open>anomaly\<close>, that are complete
  numeric columns, at least one record, valid parameters) it succeeds. Whenever it succeeds, the
  scores and labels are those of the forest seeded with \<open>random_state\<close>; a second run with
  the detector the first one returned gives the same table again, on the table as it was
  and, unless \<open>anomaly_score\<close> is a configured feature, on the table as the first run left
  it. Loading and preprocessing depend on the configuration and the file only.
\<close>

theorem detect_anomalies_deterministic:
  assumes "random_state (config self1) = Some s" and "config self2 = config self1"
  shows "map_sum id snd (snd (detect_anomalies sc g1 self1 df lg1))
           = map_sum id snd (snd (detect_anomalies sc g2 self2 df lg2))
     \<and> (set (features (config self1)) \<subseteq> set (columns df) \<and> valid_parameters (config self1)
          \<and> features (config self1) \<noteq> [] \<and> ''anomaly'' \<notin> set (features (config self1))
          \<and> distinct (features (config self1))
          \<and> list_all (\<lambda>f. list_all (\<lambda>x. \<not> is_Str x \<and> \<not> isnull x) (the (map_of df f)))
               (features (config self1))
          \<and> list_ex (\<lambda>f. the (map_of df f) \<noteq> []) (features (config self1))
        \<longrightarrow> (\<exists>lg' self' df'. detect_anomalies sc g1 self1 df lg1 = (lg', Inr (self', df'))))
     \<and> (detect_anomalies sc g1 self1 df lg1 = (lg', Inr (self', df')) \<longrightarrow>
          (\<exists>X. X \<noteq> [] \<and> model self' = Some (fit sc (Seeded s) (config self1) X)
             \<and> map_of df' ''anomaly_score''
                 = Some (map (\<lambda>row. Num (sc (Seeded s) (n_estimators (config self1)) X row)) X)
             \<and> map_of df' ''anomaly''
                 = Some (map map_label (predict sc (fit sc (Seeded s) (config self1) X) X)))
          \<and> map_sum id snd (snd (detect_anomalies sc g2 self' df lg2)) = Inr df'
          \<and> (''anomaly_score'' \<notin> set (features (config self1)) \<longrightarrow>
               map_sum id snd (snd (detect_anomalies sc g2 self' df' lg2)) = Inr df'))
     \<and> map_sum id snd (snd (load_and_preprocess_data read_csv self1 p lg1))
           = map_sum id snd (snd (load_and_preprocess_data read_csv self2 p lg2))"
proof (intro conjI impI)
  show "map_sum id snd (snd (detect_anomalies sc g1 self1 df lg1))
           = map_sum id snd (snd (detect_anomalies sc g2 self2 df lg2))"
    by (rule detect_anomalies_config_only [OF assms])
  show "map_sum id snd (snd (load_and_preprocess_data read_csv self1 p lg1))
           = map_sum id snd (snd (load_and_preprocess_data read_csv self2 p lg2))"
    by (rule load_and_preprocess_data_config_only [OF assms(2)])
next
  let ?fs = "features (config self1)"
  let ?cs = "map (\<lambda>f. the (map_of df f)) ?fs"
  assume a: "set ?fs \<subseteq> set (columns df) \<and> valid_parameters (config self1)
          \<and> ?fs \<noteq> [] \<and> ''anomaly'' \<notin> set ?fs
          \<and> distinct ?fs
          \<and> list_all (\<lambda>f. list_all (\<lambda>x. \<not> is_Str x \<and> \<not> isnull x) (the (map_of df f))) ?fs
          \<and> list_ex (\<lambda>f. the (map_of df f) \<noteq> []) ?fs"
  then have ne: "?cs \<noteq> []" by simp
  from a have num: "\<forall>c \<in> set ?cs. \<forall>x \<in> set c. \<not> is_Str x \<and> \<not> isnull x"
    by (auto simp: list_all_iff)
  from a have "\<exists>c \<in> set ?cs. c \<noteq> []" by (auto simp: list_ex_iff)
  from check_array_complete [OF ne num this] a
    detect_anomalies_success [of self1 df _ sc g1 lg1]
  show "\<exists>lg' self' df'. detect_anomalies sc g1 self1 df lg1 = (lg', Inr (self', df'))"
    by blast
next
  assume r: "detect_anomalies sc g1 self1 df lg1 = (lg', Inr (self', df'))"
  from assms(1) have src: "check_random_state (random_state (config self1)) g1 = Seeded s"
    by (simp add: check_random_state_def)
  from detect_anomalies_Inr [OF r] obtain X where
    ca: "check_array (map (\<lambda>f. the (map_of df f)) (features (config self1))) = Inr X"
    and self': "self' = self1\<lparr>model := Some (fit sc (Seeded s) (config self1) X)\<rparr>"
    and df': "df' = setitem ''anomaly_score''
                     (map Num (score_samples sc (fit sc (Seeded s) (config self1) X) X))
                     (setitem ''anomaly''
                        (map map_label (predict sc (fit sc (Seeded s) (config self1) X) X))
                        df)"
    unfolding src by blast
  have "X \<noteq> []" by (rule check_array_Inr(2) [OF ca])
  moreover have "model self' = Some (fit sc (Seeded s) (config self1) X)"
    by (simp add: self')
  moreover have "map_of df' ''anomaly_score''
                 = Some (map (\<lambda>row. Num (sc (Seeded s) (n_estimators (config self1)) X row)) X)"
    by (simp add: df' map_of_setitem score_samples_fit comp_def)
  moreover have "map_of df' ''anomaly''
                 = Some (map map_label (predict sc (fit sc (Seeded s) (config self1) X) X))"
    by (simp add: df' map_of_setitem)
  ultimately show "\<exists>X. X \<noteq> [] \<and> model self' = Some (fit sc (Seeded s) (config self1) X)
             \<and> map_of df' ''anomaly_score''
                 = Some (map (\<lambda>row. Num (sc (Seeded s) (n_estimators (config self1)) X row)) X)
             \<and> map_of df' ''anomaly''
                 = Some (map map_label (predict sc (fit sc (Seeded s) (config self1) X) X))"
    by blast
  from self' have "config self' = config self1" by simp
  from detect_anomalies_config_only [OF assms(1) this, of sc g1 df lg1 g2 lg2] r
  show "map_sum id snd (snd (detect_anomalies sc g2 self' df lg2)) = Inr df'" by simp
  assume "''anomaly_score'' \<notin> set (features (config self1))"
  from detect_anomalies_rerun [OF r assms(1) this]
  show "map_sum id snd (snd (detect_anomalies sc g2 self' df' lg2)) = Inr df'" .
qed

theorem detect_anomalies_deterministic_witness:
  "random_state (config det_ab) = Some 42
   \<and> config (det_ab\<lparr>scaler := Some [Some (2, 1), Some (5, 1)]\<rparr>) = config det_ab
   \<and> detect_anomalies parity_scorer 0 det_ab df_three [] =
       ([Info_anomaly_stats 3 2 1],
        Inr (det_ab\<lparr>model := Some \<lparr>source = Seeded 42, estimators = 100,
                                    train = [[0, 0], [1, 0], [3, 0]], offset = - 1\<rparr>\<rparr>,
             [(''a'', [Num 0, Num 1, Num 3]), (''b'', [Num 0, Num 0, Num 0]),
              (''anomaly'', [Str ''Normal'', Str ''Normal'', Str ''Anomaly'']),
              (''anomaly_score'', [Num 0, Num (- 1), Num (- 3)])]))
   \<and> map_sum id snd (snd (detect_anomalies parity_scorer 1
                             (det_ab\<lparr>scaler := Some [Some (2, 1), Some (5, 1)]\<rparr>) df_three
                             [Info_loaded ''network_traffic.csv'']))
       = Inr [(''a'', [Num 0, Num 1, Num 3]), (''b'', [Num 0, Num 0, Num 0]),
              (''anomaly'', [Str ''Normal'', Str ''Normal'', Str ''Anomaly'']),
              (''anomaly_score'', [Num 0, Num (- 1), Num (- 3)])]
   \<and> map_sum id snd (snd (detect_anomalies parity_scorer 1
                             (det_ab\<lparr>model := Some \<lparr>source = Seeded 42, estimators = 100,
                                    train = [[0, 0], [1, 0], [3, 0]], offset = - 1\<rparr>\<rparr>)
                             [(''a'', [Num 0, Num 1, Num 3]), (''b'', [Num 0, Num 0, Num 0]),
                              (''anomaly'', [Str ''Normal'', Str ''Normal'', Str ''Anomaly'']),
                              (''anomaly_score'', [Num 0, Num (- 1), Num (- 3)])]
                             [Info_anomaly_stats 3 2 1]))
       = Inr [(''a'', [Num 0, Num 1, Num 3]), (''b'', [Num 0, Num 0, Num 0]),
              (''anomaly'', [Str ''Normal'', Str ''Normal'', Str ''Anomaly'']),
              (''anomaly_score'', [Num 0, Num (- 1), Num (- 3)])]
   \<and> map_sum id snd (snd (detect_anomalies parity_scorer 0 det_none df_three []))
       \<noteq> map_sum id snd (snd (detect_anomalies parity_scorer 1 det_none df_three []))"
proof -
  let ?T = "[(''a'', [Num 0, Num 1, Num 3]), (''b'', [Num 0, Num 0, Num 0]),
              (''anomaly'', [Str ''Normal'', Str ''Normal'', Str ''Anomaly'']),
              (''anomaly_score'', [Num 0, Num (- 1), Num (- 3)])]"
  let ?d = "det_ab\<lparr>model := Some \<lparr>source = Seeded 42, estimators = 100,
                                    train = [[0, 0], [1, 0], [3, 0]], offset = - 1\<rparr>\<rparr>"
  have h1: "random_state (config det_ab) = Some 42" by (simp add: det_ab_def cfg_ab_def)
  have h2: "config (det_ab\<lparr>scaler := Some [Some (2, 1), Some (5, 1)]\<rparr>) = config det_ab" by simp
  have h: "detect_anomalies parity_scorer 0 det_ab df_three [] = ([Info_anomaly_stats 3 2 1], Inr (?d, ?T))"
    by (simp add: detect_eval parity_scorer_def df_three_def)
  have ns: "''anomaly_score'' \<notin> set (features (config det_ab))"
    by (simp add: det_ab_def cfg_ab_def)
  note t = detect_anomalies_deterministic [OF h1 h2, of parity_scorer 0 df_three "[]" 1]
  from t [of "[Info_loaded ''network_traffic.csv'']"] h
  have a: "map_sum id snd (snd (detect_anomalies parity_scorer 1
                             (det_ab\<lparr>scaler := Some [Some (2, 1), Some (5, 1)]\<rparr>) df_three
                             [Info_loaded ''network_traffic.csv''])) = Inr ?T"
    by simp
  from t [of "[Info_anomaly_stats 3 2 1]" "[Info_anomaly_stats 3 2 1]" ?d ?T] h ns
  have b: "map_sum id snd (snd (detect_anomalies parity_scorer 1 ?d ?T [Info_anomaly_stats 3 2 1])) = Inr ?T"
    by blast
  from detect_anomalies_unseeded
  have c: "map_sum id snd (snd (detect_anomalies parity_scorer 0 det_none df_three []))
       \<noteq> map_sum id snd (snd (detect_anomalies parity_scorer 1 det_none df_three []))"
    by simp
  from h1 h2 h a b c show ?thesis by blast
qed

text \<open>
  Claim C6, as stated, fails for a table with exactly one record: nothing checks the number
  of records, the library accepts one sample, and the record is scored and labelled.
\<close>

theorem detect_anomalies_one_record_counterexample:
  "detect_anomalies flat_scorer 0 det_ab df_one [] =
     ([Info_anomaly_stats 1 1 0],
      Inr (det_ab\<lparr>model := Some \<lparr>source = Seeded 42, estimators = 100,
                                  train = [[0, 0]], offset = - 1 / 2\<rparr>\<rparr>,
           [(''a'', [Num 0]), (''b'', [Num 0]),
            (''anomaly'', [Str ''Normal'']),
            (''anomaly_score'', [Num (- 1 / 2)])]))"
  by (simp add: detect_eval df_one_def)

text \<open>
  Claim C6, amended: detection has no minimum of two records. With valid parameters
  (contamination in \<open>(0, 0.5]\<close>, at least one estimator, a seed that is absent or in
  \<open>[0, 2\<^sup>3\<^sup>2 - 1]\<close>) and configured features, distinct, at least one and none named
  \<open>anomaly\<close>, that are complete numeric columns of the table, detection fails, with the
  library's \<open>ValueError\<close> for an input without samples, exactly when the table has no
  record; every table with at least one record is scored and labelled, and the record of
  a one-record table is labelled \<open>Normal\<close>.
\<close>

theorem detect_anomalies_small_tables:
  assumes "set (features (config self)) \<subseteq> set (columns df)"
    and "valid_parameters (config self)"
    and "features (config self) \<noteq> []"
    and "''anomaly'' \<notin> set (features (config self))"
    and "distinct (features (config self))"
    and "list_all (\<lambda>f. list_all (\<lambda>x. \<not> is_Str x \<and> \<not> isnull x) (the (map_of df f)))
           (features (config self))"
  shows "(if list_all (\<lambda>f. the (map_of df f) = []) (features (config self))
          then detect_anomalies sc g self df lg
                 = (lg @ [Error_detection (ValueError NoSamples)], Inl (ValueError NoSamples))
          else \<exists>lg' self' df'. detect_anomalies sc g self df lg = (lg', Inr (self', df')))
      \<and> (list_all (\<lambda>f. length (the (map_of df f)) = 1) (features (config self))
         \<longrightarrow> (\<exists>lg' self' df'. detect_anomalies sc g self df lg = (lg', Inr (self', df'))
                \<and> map_of df' ''anomaly'' = Some [Str ''Normal'']))"
proof -
  let ?fs = "features (config self)"
  let ?cs = "map (\<lambda>f. the (map_of df f)) ?fs"
  have ne: "?cs \<noteq> []" using assms(3) by simp
  have num: "\<forall>c \<in> set ?cs. \<forall>x \<in> set c. \<not> is_Str x \<and> \<not> isnull x"
    using assms(6) by (auto simp: list_all_iff)
  have g: "getitem df ?fs = Inr ?cs" using assms(1) by (simp add: getitem_def)
  have a: "detect_anomalies sc g self df lg
             = (lg @ [Error_detection (ValueError NoSamples)], Inl (ValueError NoSamples))"
    if "list_all (\<lambda>f. the (map_of df f) = []) ?fs"
  proof -
    from that have "\<forall>c \<in> set ?cs. c = []" by (auto simp: list_all_iff)
    from check_array_no_rows [OF ne this] show ?thesis
      by (simp add: detect_anomalies_def Let_def g assms(2))
  qed
  have b: "\<exists>lg' self' df'. detect_anomalies sc g self df lg = (lg', Inr (self', df'))"
    if "\<not> list_all (\<lambda>f. the (map_of df f) = []) ?fs"
  proof -
    from that have "\<exists>c \<in> set ?cs. c \<noteq> []" by (auto simp: list_all_iff)
    from check_array_complete [OF ne num this]
      detect_anomalies_success [OF assms(1,2) _ assms(4), of _ sc g lg]
    show ?thesis by blast
  qed
  have c: "\<exists>lg' self' df'. detect_anomalies sc g self df lg = (lg', Inr (self', df'))
                \<and> map_of df' ''anomaly'' = Some [Str ''Normal'']"
    if "list_all (\<lambda>f. length (the (map_of df f)) = 1) ?fs"
  proof -
    from that have one: "\<forall>c \<in> set ?cs. length c = 1" by (auto simp: list_all_iff)
    then have "\<exists>c \<in> set ?cs. c \<noteq> []" using ne by (cases ?cs) auto
    from check_array_complete [OF ne num this]
    have ca: "check_array ?cs = Inr (map (map the_num) (transpose ?cs))" .
    from length_transpose_one [OF ne one] obtain r where r: "map (map the_num) (transpose ?cs) = [r]"
      by (cases "transpose ?cs") auto
    from detect_anomalies_success [OF assms(1,2) ca [unfolded r] assms(4), of sc g lg]
    show ?thesis by (auto simp: map_of_setitem predict_single)
  qed
  from a b c show ?thesis by simp
qed

theorem detect_anomalies_small_tables_witness:
  "set (features (config det_ab)) \<subseteq> set (columns df_one)
   \<and> valid_parameters (config det_ab)
   \<and> features (config det_ab) \<noteq> []
   \<and> ''anomaly'' \<notin> set (features (config det_ab))
   \<and> distinct (features (config det_ab))
   \<and> list_all (\<lambda>f. list_all (\<lambda>x. \<not> is_Str x \<and> \<not> isnull x) (the (map_of df_one f)))
        (features (config det_ab))
   \<and> list_all (\<lambda>f. length (the (map_of df_one f)) = 1) (features (config det_ab))
   \<and> (\<exists>lg' self' df'. detect_anomalies flat_scorer 0 det_ab df_one [] = (lg', Inr (self', df'))
         \<and> map_of df' ''anomaly'' = Some [Str ''Normal''])"
proof -
  have h1: "set (features (config det_ab)) \<subseteq> set (columns df_one)"
    by (simp add: det_ab_def cfg_ab_def df_one_def columns_def)
  have h2: "valid_parameters (config det_ab)"
    by (simp add: det_ab_def cfg_ab_def valid_parameters_def)
  have h3: "features (config det_ab) \<noteq> []" by (simp add: det_ab_def cfg_ab_def)
  have h4: "''anomaly'' \<notin> set (features (config det_ab))" by (simp add: det_ab_def cfg_ab_def)
  have hd: "distinct (features (config det_ab))" by (simp add: det_ab_def cfg_ab_def)
  have h5: "list_all (\<lambda>f. list_all (\<lambda>x. \<not> is_Str x \<and> \<not> isnull x) (the (map_of df_one f)))
        (features (config det_ab))"
    by (simp add: det_ab_def cfg_ab_def df_one_def)
  have h6: "list_all (\<lambda>f. length (the (map_of df_one f)) = 1) (features (config det_ab))"
    by (simp add: det_ab_def cfg_ab_def df_one_def)
  from detect_anomalies_small_tables [OF h1 h2 h3 h4 hd h5, of flat_scorer 0 "[]"] h6
  have "\<exists>lg' self' df'. detect_anomalies flat_scorer 0 det_ab df_one [] = (lg', Inr (self', df'))
         \<and> map_of df' ''anomaly'' = Some [Str ''Normal'']"
    by simp
  with h1 h2 h3 h4 hd h5 h6 show ?thesis by blast
qed

text \<open>
  Claim C10, as stated, fails for a table that already has a column named \<open>anomaly\<close>: that
  column is overwritten in place and only one column is appended.
\<close>

theorem detect_anomalies_overwrite_counterexample:
  "columns df_labelled = [''a'', ''anomaly'', ''b'']
   \<and> detect_anomalies norm_scorer 0 det_ab df_labelled [] =
     ([Info_anomaly_stats 3 2 1],
      Inr (det_ab\<lparr>model := Some \<lparr>source = Seeded 42, estimators = 100,
                                  train = [[0, 0], [1, 0], [3, 0]], offset = - 1\<rparr>\<rparr>,
           [(''a'', [Num 0, Num 1, Num 3]),
            (''anomaly'', [Str ''Normal'', Str ''Normal'', Str ''Anomaly'']),
            (''b'', [Num 0, Num 0, Num 0]),
            (''anomaly_score'', [Num 0, Num (- 1), Num (- 3)])]))"
  by (simp add: detect_eval df_labelled_def)

text \<open>
  Claim C10, amended: whenever detection succeeds, the result has the columns of the table,
  in their order, followed by those of \<open>anomaly\<close> and \<open>anomaly_score\<close> that the table did not
  have (both, in this order, when it had neither; a column that already has one of the two
  names is overwritten in place); no column is removed, every column with another name is
  unchanged, and every value of \<open>anomaly\<close> is \<open>Normal\<close> or \<open>Anomaly\<close>.
\<close>

theorem detect_anomalies_columns:
  assumes "detect_anomalies sc g self df lg = (lg', Inr (self', df'))"
  shows "columns df' = columns df @ filter (\<lambda>k. k \<notin> set (columns df)) [''anomaly'', ''anomaly_score'']
     \<and> filter (\<lambda>p. fst p \<notin> {''anomaly'', ''anomaly_score''}) df'
         = filter (\<lambda>p. fst p \<notin> {''anomaly'', ''anomaly_score''}) df
     \<and> (\<exists>labels. map_of df' ''anomaly'' = Some labels
          \<and> list_all (\<lambda>x. x = Str ''Normal'' \<or> x = Str ''Anomaly'') labels)"
proof -
  from detect_anomalies_Inr [OF assms] obtain X m where
    df': "df' = setitem ''anomaly_score'' (map Num (score_samples sc m X))
                 (setitem ''anomaly'' (map map_label (predict sc m X)) df)"
    by blast
  have c: "columns df' = columns df @ filter (\<lambda>k. k \<notin> set (columns df)) [''anomaly'', ''anomaly_score'']"
    by (simp add: df' columns_setitem)
  have "filter (\<lambda>p. fst p \<notin> {''anomaly'', ''anomaly_score''}) df'
         = filter (\<lambda>p. fst p \<notin> {''anomaly'', ''anomaly_score''})
             (setitem ''anomaly'' (map map_label (predict sc m X)) df)"
    unfolding df' setitem_def by (rule filter_update_other) simp
  also have "\<dots> = filter (\<lambda>p. fst p \<notin> {''anomaly'', ''anomaly_score''}) df"
    unfolding setitem_def by (rule filter_update_other) simp
  finally have f: "filter (\<lambda>p. fst p \<notin> {''anomaly'', ''anomaly_score''}) df'
         = filter (\<lambda>p. fst p \<notin> {''anomaly'', ''anomaly_score''}) df" .
  have l: "map_of df' ''anomaly'' = Some (map map_label (predict sc m X))"
    by (simp add: df' map_of_setitem)
  have "list_all (\<lambda>x. x = Str ''Normal'' \<or> x = Str ''Anomaly'') (map map_label (predict sc m X))"
    using map_label_predict [of _ sc m X] by (auto simp: list_all_iff)
  with c f l show ?thesis by blast
qed

theorem detect_anomalies_columns_witness:
  "detect_anomalies norm_scorer 0 det_ab df_three [] =
     ([Info_anomaly_stats 3 2 1],
      Inr (det_ab\<lparr>model := Some \<lparr>source = Seeded 42, estimators = 100,
                                  train = [[0, 0], [1, 0], [3, 0]], offset = - 1\<rparr>\<rparr>,
           [(''a'', [Num 0, Num 1, Num 3]), (''b'', [Num 0, Num 0, Num 0]),
            (''anomaly'', [Str ''Normal'', Str ''Normal'', Str ''Anomaly'']),
            (''anomaly_score'', [Num 0, Num (- 1), Num (- 3)])]))
   \<and> columns [(''a'', [Num 0, Num 1, Num 3]), (''b'', [Num 0, Num 0, Num 0]),
            (''anomaly'', [Str ''Normal'', Str ''Normal'', Str ''Anomaly'']),
            (''anomaly_score'', [Num 0, Num (- 1), Num (- 3)])]
       = columns df_three @ [''anomaly'', ''anomaly_score'']"
proof -
  have h: "detect_anomalies norm_scorer 0 det_ab df_three [] =
     ([Info_anomaly_stats 3 2 1],
      Inr (det_ab\<lparr>model := Some \<lparr>source = Seeded 42, estimators = 100,
                                  train = [[0, 0], [1, 0], [3, 0]], offset = - 1\<rparr>\<rparr>,
           [(''a'', [Num 0, Num 1, Num 3]), (''b'', [Num 0, Num 0, Num 0]),
            (''anomaly'', [Str ''Normal'', Str ''Normal'', Str ''Anomaly'']),
            (''anomaly_score'', [Num 0, Num (- 1), Num (- 3)])]))"
    by (simp add: detect_eval df_three_def)
  from detect_anomalies_columns [OF h]
  have "columns [(''a'', [Num 0, Num 1, Num 3]), (''b'', [Num 0, Num 0, Num 0]),
            (''anomaly'', [Str ''Normal'', Str ''Normal'', Str ''Anomaly'']),
            (''anomaly_score'', [Num 0, Num (- 1), Num (- 3)])]
       = columns df_three @ [''anomaly'', ''anomaly_score'']"
    by (simp add: df_three_def columns_def)
  with h show ?thesis by blast
qed

end
